theory Spec2Isabelle
  imports Main "HOL-Library.Sublist"
begin

section \<open>Python values\<close>

text \<open>
  The scraper is one class, \<open>PhpMyAdminScraper\<close>, in \<open>main.py\<close>. Its text values are
  Python strings, modelled as \<open>string\<close>; a character stands for a code point below 256.
  Exceptions are values: every class the program raises or tells apart is a constructor.
  \<open>RequestException\<close> stands for \<open>requests.RequestException\<close> and all its subclasses
  (connection errors, timeouts, \<open>HTTPError\<close>); the program never tells them apart.
\<close>

datatype exn =
    RequestException string
  | ValueError
  | AttributeError
  | OtherException string

fun is_request_exception :: "exn \<Rightarrow> bool" where
  "is_request_exception (RequestException _) = True"
| "is_request_exception _ = False"

text \<open>
  The values of \<open>exn\<close> are the exceptions derived from \<open>Exception\<close>. What leaves a step
  is one of them, or \<open>KeyboardInterrupt\<close>: an interrupt of the process, derived from
  \<open>BaseException\<close> only, which no \<open>except\<close> clause of the program catches.
\<close>

datatype thrown = Exception exn | KeyboardInterrupt

subsection \<open>Strings\<close>

text \<open>\<open>needle in hay\<close> on strings: a scan for the first position where the needle starts.\<close>

fun py_in :: "string \<Rightarrow> string \<Rightarrow> bool" where
  "py_in needle [] = (needle = [])"
| "py_in needle (c # cs) = (prefix needle (c # cs) \<or> py_in needle cs)"

text \<open>\<open>sep.join(xs)\<close>.\<close>

fun join :: "string \<Rightarrow> string list \<Rightarrow> string" where
  "join sep [] = []"
| "join sep [x] = x"
| "join sep (x # y # ys) = x @ sep @ join sep (y # ys)"

text \<open>
  \<open>str.isspace\<close> on one character, for code points below 256: tab to carriage return,
  the four separators 28 to 31, the space, NEL (133) and the no-break space (160).
\<close>

definition py_isspace :: "char \<Rightarrow> bool" where
  "py_isspace c =
     (let n = (of_char c :: nat)
      in (9 \<le> n \<and> n \<le> 13) \<or> (28 \<le> n \<and> n \<le> 32) \<or> n = 133 \<or> n = 160)"

text \<open>\<open>s.strip()\<close>: whitespace removed at both ends.\<close>

definition py_strip :: "string \<Rightarrow> string" where
  "py_strip s = rev (dropWhile py_isspace (rev (dropWhile py_isspace s)))"

text \<open>\<open>c * k\<close> for a one-character string and a Python integer: empty when \<open>k \<le> 0\<close>.\<close>

definition py_repeat :: "char \<Rightarrow> int \<Rightarrow> string" where
  "py_repeat c k = (if k \<le> 0 then [] else replicate (nat k) c)"

section \<open>The document tree of the HTML parser\<close>

text \<open>
  \<open>BeautifulSoup(html, "html.parser")\<close> yields a tree of tags, text nodes and comments.
  A tag carries its name, the tokens of its \<open>class\<close> attribute (the parser splits that
  attribute at whitespace and keeps a list) and its other attributes as a dictionary from
  name to string (\<open>id\<close>, \<open>type\<close>, \<open>name\<close>, \<open>value\<close> are all single strings). The soup
  object itself is the root tag.
\<close>

datatype node =
    Text string
  | Comment string
  | Element string "string list" "string \<rightharpoonup> string" "node list"

fun tag_name :: "node \<Rightarrow> string option" where
  "tag_name (Element t _ _ _) = Some t"
| "tag_name _ = None"

fun classes :: "node \<Rightarrow> string list" where
  "classes (Element _ cl _ _) = cl"
| "classes _ = []"

fun attrs :: "node \<Rightarrow> string \<rightharpoonup> string" where
  "attrs (Element _ _ a _) = a"
| "attrs _ = Map.empty"

text \<open>\<open>tag.descendants\<close>: every node below the tag, in document order (pre-order).\<close>

fun descendants :: "node \<Rightarrow> node list" where
  "descendants (Element t cl a cs) = concat (map (\<lambda>c. c # descendants c) cs)"
| "descendants _ = []"

text \<open>
  What a search asks of a tag besides its name: nothing, a value of the \<open>class\<close>
  attribute, or a value of another attribute. A class value matches when it is one of the
  tokens, or when it is the whole attribute (the tokens joined by one space).
\<close>

datatype criterion = AnyAttrs | HasClass string | AttrEq string string

fun matches :: "string \<Rightarrow> criterion \<Rightarrow> node \<Rightarrow> bool" where
  "matches name AnyAttrs n = (tag_name n = Some name)"
| "matches name (HasClass v) n =
     (tag_name n = Some name \<and> (v \<in> set (classes n) \<or> join '' '' (classes n) = v))"
| "matches name (AttrEq k v) n = (tag_name n = Some name \<and> attrs n k = Some v)"

text \<open>\<open>tag.find_all(name, attrs)\<close> and \<open>tag.find(name, attrs)\<close> (the first hit or \<open>None\<close>).\<close>

definition find_all :: "string \<Rightarrow> criterion \<Rightarrow> node \<Rightarrow> node list" where
  "find_all name crit n = filter (matches name crit) (descendants n)"

definition find :: "string \<Rightarrow> criterion \<Rightarrow> node \<Rightarrow> node option" where
  "find name crit n = (case find_all name crit n of [] \<Rightarrow> None | x # _ \<Rightarrow> Some x)"

text \<open>
  \<open>tag.get_text(strip=True)\<close>: the text nodes below the tag in document order, each
  stripped on its own, the empty ones dropped, joined with no separator. Comments are not
  text.
\<close>

fun text_of :: "node \<Rightarrow> string list" where
  "text_of (Text s) = [s]"
| "text_of _ = []"

definition all_strings :: "node \<Rightarrow> string list" where
  "all_strings n = concat (map text_of (descendants n))"

definition get_text_strip :: "node \<Rightarrow> string" where
  "get_text_strip n = concat (filter (\<lambda>s. s \<noteq> []) (map py_strip (all_strings n)))"

section \<open>Effects\<close>

text \<open>
  Everything the run does to the outside is an event of one trace, in the order it
  happens: a record written by the logger, a line printed, a request sent through the HTTP
  session, and the call of \<open>session.close()\<close>. The logger is configured at level INFO in
  the constructor, so \<open>logger.debug\<close> writes nothing. Log messages are named by what they
  report; those built from \<open>str(e)\<close> carry the exception.
\<close>

datatype level = INFO | WARNING | ERROR | CRITICAL

datatype msg =
    FetchingLoginPage
  | LoginFormNotFound
  | FormRequestError exn
  | FormUnexpectedError exn
  | AuthFailed
  | AuthSucceeded
  | AuthCheckError exn
  | TableNotFound
  | RowsParsed nat
  | ParseError exn
  | ResultsPrinted
  | PrintError exn
  | SendingCredentials
  | AuthRequestError exn
  | FetchingTable string
  | TableRequestError exn
  | MainCritical exn
  | SessionClosed
  | SessionCloseError exn

text \<open>A printed line: the banner that opens the result (a fixed literal), or a text line.\<close>

datatype out = Banner | Line string

datatype request = GET string | POST string "string \<rightharpoonup> string"

datatype event = Log level msg | Print out | Request request | Close

record response =
  status_code :: nat
  resp_text :: string

text \<open>
  The collaborators of a run: what the HTTP session answers (or raises) for a request,
  given the requests sent before it; what the HTML parser builds (or raises) for a
  string; whether the console refuses a line; whether closing the session raises. The
  interrupt is modelled where the run waits on the network: a request may end in it.
\<close>

record env =
  server :: "request list \<Rightarrow> request \<Rightarrow> thrown + response"
  html_parser :: "string \<Rightarrow> exn + node"
  console :: "out \<Rightarrow> exn option"
  close_error :: "exn option"

text \<open>A step: from the trace so far to a result or to what it raises, and the new trace.\<close>

type_synonym 'a prog = "event list \<Rightarrow> (thrown + 'a) \<times> event list"

definition return :: "'a \<Rightarrow> 'a prog" where
  "return x = (\<lambda>w. (Inr x, w))"

definition raise :: "exn \<Rightarrow> 'a prog" where
  "raise e = (\<lambda>w. (Inl (Exception e), w))"

definition bind :: "'a prog \<Rightarrow> ('a \<Rightarrow> 'b prog) \<Rightarrow> 'b prog" where
  "bind m f = (\<lambda>w. case m w of (Inl e, w') \<Rightarrow> (Inl e, w') | (Inr x, w') \<Rightarrow> f x w')"

definition seq :: "unit prog \<Rightarrow> 'b prog \<Rightarrow> 'b prog" where
  "seq m k = bind m (\<lambda>_. k)"

text \<open>
  \<open>try: body except C as e: handler\<close>, where \<open>catches\<close> says which exceptions are a \<open>C\<close>.
  Every class \<open>C\<close> of the program is \<open>Exception\<close> or below it, so the interrupt passes.
\<close>

definition try_except :: "'a prog \<Rightarrow> (exn \<Rightarrow> bool) \<Rightarrow> (exn \<Rightarrow> 'a prog) \<Rightarrow> 'a prog" where
  "try_except body catches handler =
     (\<lambda>w. case body w of
            (Inl (Exception e), w') \<Rightarrow>
              if catches e then handler e w' else (Inl (Exception e), w')
          | (Inl KeyboardInterrupt, w') \<Rightarrow> (Inl KeyboardInterrupt, w')
          | (Inr x, w') \<Rightarrow> (Inr x, w'))"

text \<open>
  \<open>try: body finally: cleanup\<close>: the cleanup runs on every exit of the body; the outcome
  of the body stands unless the cleanup itself raises.
\<close>

definition try_finally :: "'a prog \<Rightarrow> unit prog \<Rightarrow> 'a prog" where
  "try_finally body cleanup =
     (\<lambda>w. case body w of
            (r, w') \<Rightarrow> (case cleanup w' of (Inl e, w'') \<Rightarrow> (Inl e, w'') | (Inr _, w'') \<Rightarrow> (r, w'')))"

text \<open>\<open>except Exception\<close> catches every value of \<open>exn\<close>.\<close>

definition any_exception :: "exn \<Rightarrow> bool" where
  "any_exception e = True"

text \<open>A call that returns or raises an exception, and leaves no event.\<close>

definition lift :: "exn + 'a \<Rightarrow> 'a prog" where
  "lift r = (\<lambda>w. case r of Inl e \<Rightarrow> (Inl (Exception e), w) | Inr x \<Rightarrow> (Inr x, w))"

definition logger :: "level \<Rightarrow> msg \<Rightarrow> unit prog" where
  "logger lv m = (\<lambda>w. (Inr (), w @ [Log lv m]))"

text \<open>\<open>logger.debug\<close>: below the configured level, nothing is written.\<close>

definition logger_debug :: "unit prog" where
  "logger_debug = return ()"

definition py_print :: "env \<Rightarrow> out \<Rightarrow> unit prog" where
  "py_print ev ln =
     (\<lambda>w. case console ev ln of
            Some e \<Rightarrow> (Inl (Exception e), w)
          | None \<Rightarrow> (Inr (), w @ [Print ln]))"

fun requests_of :: "event list \<Rightarrow> request list" where
  "requests_of [] = []"
| "requests_of (Request r # es) = r # requests_of es"
| "requests_of (_ # es) = requests_of es"

definition session_send :: "env \<Rightarrow> request \<Rightarrow> response prog" where
  "session_send ev rq = (\<lambda>w. (server ev (requests_of w) rq, w @ [Request rq]))"

text \<open>\<open>response.raise_for_status()\<close>: an \<open>HTTPError\<close> for the 4xx and 5xx status codes.\<close>

definition raise_for_status :: "response \<Rightarrow> unit prog" where
  "raise_for_status r =
     (if 400 \<le> status_code r \<and> status_code r < 600
      then raise (RequestException ''HTTPError'') else return ())"

text \<open>
  The pair \<open>response = session.get(...)\<close> (or \<open>post\<close>) and \<open>response.raise_for_status()\<close>,
  as it stands at each of the three requests of the program.
\<close>

definition send_checked :: "env \<Rightarrow> request \<Rightarrow> response prog" where
  "send_checked ev rq =
     bind (session_send ev rq) (\<lambda>response.
     seq (raise_for_status response) (return response))"

definition session_close :: "env \<Rightarrow> unit prog" where
  "session_close ev =
     (\<lambda>w. case close_error ev of
            Some e \<Rightarrow> (Inl (Exception e), w @ [Close])
          | None \<Rightarrow> (Inr (), w @ [Close]))"

section \<open>The scraper\<close>

record scraper =
  base_url :: string
  login_url :: string
  username :: string
  password :: string
  db_name :: string
  table_name :: string

text \<open>The constructor's fields (\<open>__init__\<close>); the login URL is derived from the base URL.\<close>

definition init :: "string \<Rightarrow> string \<Rightarrow> string \<Rightarrow> string \<Rightarrow> string \<Rightarrow> scraper" where
  "init b u p d t =
     \<lparr>base_url = b, login_url = b @ ''index.php?route=/'', username = u, password = p,
      db_name = d, table_name = t\<rparr>"

subsection \<open>\<open>_check_auth_success\<close>\<close>

definition check_auth_success :: "response \<Rightarrow> bool prog" where
  "check_auth_success r =
     try_except
       (if \<not> py_in ''frame_navigation'' (resp_text r) \<and> \<not> py_in ''pma_navigation_tree'' (resp_text r)
        then seq (logger WARNING AuthFailed) (return False)
        else seq (logger INFO AuthSucceeded) (return True))
       any_exception
       (\<lambda>e. seq (logger ERROR (AuthCheckError e)) (return False))"

subsection \<open>\<open>_get_login_form_data\<close>\<close>

type_synonym payload = "string \<rightharpoonup> string"

text \<open>
  \<open>try: body except C1 as e: h1 except C2 as e: h2\<close>: the first clause that matches
  handles the exception; what a handler raises is not caught by the other clause.
\<close>

definition try_except2 ::
  "'a prog \<Rightarrow> (exn \<Rightarrow> bool) \<Rightarrow> (exn \<Rightarrow> 'a prog) \<Rightarrow> (exn \<Rightarrow> bool) \<Rightarrow> (exn \<Rightarrow> 'a prog) \<Rightarrow> 'a prog" where
  "try_except2 body c1 h1 c2 h2 =
     (\<lambda>w. case body w of
            (Inl (Exception e), w') \<Rightarrow>
              if c1 e then h1 e w' else if c2 e then h2 e w' else (Inl (Exception e), w')
          | (Inl KeyboardInterrupt, w') \<Rightarrow> (Inl KeyboardInterrupt, w')
          | (Inr x, w') \<Rightarrow> (Inr x, w'))"

text \<open>
  The loop over the hidden inputs of the form: an input that has both a \<open>name\<close> and a
  \<open>value\<close> attribute is stored under its name, over whatever the dictionary held there.
\<close>

definition add_hidden :: "payload \<Rightarrow> node \<Rightarrow> payload" where
  "add_hidden form_data hidden =
     (case (attrs hidden ''name'', attrs hidden ''value'') of
        (Some n, Some v) \<Rightarrow> form_data(n \<mapsto> v)
      | _ \<Rightarrow> form_data)"

text \<open>The body of the \<open>try\<close>.\<close>

definition login_form_body :: "scraper \<Rightarrow> env \<Rightarrow> payload prog" where
  "login_form_body self ev =
     seq (logger INFO FetchingLoginPage)
    (bind (send_checked ev (GET (login_url self))) (\<lambda>response.
     bind (lift (html_parser ev (resp_text response))) (\<lambda>soup.
       case find ''form'' (AttrEq ''id'' ''login_form'') soup of
         None \<Rightarrow> seq (logger ERROR LoginFormNotFound) (raise ValueError)
       | Some login_form \<Rightarrow>
           seq logger_debug
             (return (foldl add_hidden
                [''pma_username'' \<mapsto> username self, ''pma_password'' \<mapsto> password self]
                (find_all ''input'' (AttrEq ''type'' ''hidden'') login_form))))))"

text \<open>Both handlers log the error and raise it again.\<close>

definition get_login_form_data :: "scraper \<Rightarrow> env \<Rightarrow> payload prog" where
  "get_login_form_data self ev =
     try_except2 (login_form_body self ev)
       is_request_exception (\<lambda>e. seq (logger ERROR (FormRequestError e)) (raise e))
       any_exception (\<lambda>e. seq (logger ERROR (FormUnexpectedError e)) (raise e))"

subsection \<open>\<open>_parse_table_data\<close>\<close>

text \<open>The text of one header cell: that of its first link when it has one.\<close>

definition header_text :: "node \<Rightarrow> string" where
  "header_text th =
     (case find ''a'' AnyAttrs th of
        Some a \<Rightarrow> get_text_strip a
      | None \<Rightarrow> get_text_strip th)"

definition row_data :: "node \<Rightarrow> string list" where
  "row_data tr = map get_text_strip (drop 4 (find_all ''td'' AnyAttrs tr))"

text \<open>
  The body of the \<open>try\<close>. \<open>results_table.find("tbody")\<close> may be \<open>None\<close>, and calling
  \<open>find_all\<close> on \<open>None\<close> raises \<open>AttributeError\<close>. The two loops append to a list.
\<close>

definition parse_table_body ::
  "env \<Rightarrow> string \<Rightarrow> (string list option \<times> string list list option) prog" where
  "parse_table_body ev html =
     bind (lift (html_parser ev html)) (\<lambda>soup.
       case find ''table'' (HasClass ''table_results'') soup of
         None \<Rightarrow> seq (logger WARNING TableNotFound) (return (None, None))
       | Some results_table \<Rightarrow>
           (let header_cells = find_all ''th'' (HasClass ''column_heading'') results_table;
                headers = foldl (\<lambda>hs th. hs @ [header_text th]) [] header_cells
            in bind (case find ''tbody'' AnyAttrs results_table of
                       None \<Rightarrow> raise AttributeError
                     | Some tbody \<Rightarrow> return (find_all ''tr'' AnyAttrs tbody)) (\<lambda>trs.
                 (let rows = foldl (\<lambda>rs tr. rs @ [row_data tr]) [] trs
                  in seq (logger INFO (RowsParsed (length rows)))
                       (return (Some headers, Some rows))))))"

definition parse_table_data ::
  "env \<Rightarrow> string \<Rightarrow> (string list option \<times> string list list option) prog" where
  "parse_table_data ev html =
     try_except (parse_table_body ev html) any_exception
       (\<lambda>e. seq (logger ERROR (ParseError e)) (return (None, None)))"

subsection \<open>\<open>_print_results\<close>\<close>

fun print_rows :: "env \<Rightarrow> string list list \<Rightarrow> unit prog" where
  "print_rows ev [] = return ()"
| "print_rows ev (row # rows) = seq (py_print ev (Line (join '' | '' row))) (print_rows ev rows)"

text \<open>The width of the separator, in Python's integers (negative for no headers).\<close>

definition separator_width :: "string list \<Rightarrow> int" where
  "separator_width headers =
     sum_list (map (\<lambda>h. int (length h)) headers) + 3 * (int (length headers) - 1)"

definition print_results :: "env \<Rightarrow> string list \<Rightarrow> string list list \<Rightarrow> unit prog" where
  "print_results ev headers rows =
     try_except
       (seq (py_print ev Banner)
       (seq (py_print ev (Line (join '' | '' headers)))
       (seq (py_print ev (Line (py_repeat CHR ''-'' (separator_width headers))))
       (seq (print_rows ev rows)
            (logger INFO ResultsPrinted)))))
       any_exception (\<lambda>e. seq (logger ERROR (PrintError e)) (raise e))"

subsection \<open>\<open>run\<close>\<close>

text \<open>Python's truth value of an optional list: \<open>None\<close> and the empty list are false.\<close>

fun truthy :: "'a list option \<Rightarrow> bool" where
  "truthy None = False"
| "truthy (Some xs) = (xs \<noteq> [])"

text \<open>
  Step 1 of \<open>run\<close> (authorisation): the form, the POST, the check of the answer. The
  result says whether the run goes on; \<open>False\<close> is one of the two early \<open>return\<close>s.
\<close>

definition run_login :: "scraper \<Rightarrow> env \<Rightarrow> bool prog" where
  "run_login self ev =
     bind (get_login_form_data self ev) (\<lambda>form_data.
     seq (logger INFO SendingCredentials)
    (bind (try_except
             (bind (send_checked ev (POST (login_url self) form_data)) (\<lambda>response.
              return (Some response)))
             is_request_exception
             (\<lambda>e. seq (logger ERROR (AuthRequestError e)) (return None))) (\<lambda>posted.
       case posted of
         None \<Rightarrow> return False
       | Some response \<Rightarrow> check_auth_success response)))"

definition table_url :: "scraper \<Rightarrow> string" where
  "table_url self =
     base_url self @ ''index.php?route=/sql&db='' @ db_name self @ ''&table='' @ table_name self"

text \<open>
  Step 2 of \<open>run\<close> up to the parse: the GET of the table view and \<open>_parse_table_data\<close>.
  \<open>None\<close> is the early \<open>return\<close> after a failed request; otherwise the parsed pair.
\<close>

definition run_table ::
  "scraper \<Rightarrow> env \<Rightarrow> (string list option \<times> string list list option) option prog" where
  "run_table self ev =
     seq (logger INFO (FetchingTable (table_name self)))
    (bind (try_except
             (bind (send_checked ev (GET (table_url self))) (\<lambda>response.
              return (Some response)))
             is_request_exception
             (\<lambda>e. seq (logger ERROR (TableRequestError e)) (return None))) (\<lambda>got.
       case got of
         None \<Rightarrow> return None
       | Some response \<Rightarrow>
           bind (parse_table_data ev (resp_text response)) (\<lambda>parsed. return (Some parsed))))"

text \<open>The guard \<open>if headers and rows:\<close> and the call of the presenter.\<close>

definition present :: "env \<Rightarrow> string list option \<times> string list list option \<Rightarrow> unit prog" where
  "present ev parsed =
     (case parsed of
        (headers, rows) \<Rightarrow>
          if truthy headers \<and> truthy rows
          then (case (headers, rows) of
                  (Some hs, Some rs) \<Rightarrow> print_results ev hs rs
                | _ \<Rightarrow> return ())
          else return ())"

definition run_body :: "scraper \<Rightarrow> env \<Rightarrow> unit prog" where
  "run_body self ev =
     bind (run_login self ev) (\<lambda>authenticated.
       if \<not> authenticated then return ()
       else bind (run_table self ev) (\<lambda>fetched.
              case fetched of
                None \<Rightarrow> return ()
              | Some parsed \<Rightarrow> present ev parsed))"

text \<open>The \<open>finally\<close> block: closing the session, with its own handler.\<close>

definition close_session :: "env \<Rightarrow> unit prog" where
  "close_session ev =
     try_except (seq (session_close ev) (logger INFO SessionClosed))
       any_exception (\<lambda>e. logger ERROR (SessionCloseError e))"

definition run :: "scraper \<Rightarrow> env \<Rightarrow> unit prog" where
  "run self ev =
     try_finally
       (try_except (run_body self ev) any_exception (\<lambda>e. logger CRITICAL (MainCritical e)))
       (close_session ev)"

section \<open>Reading the trace\<close>

text \<open>
  The events only the presenter leaves: a printed line, the record of its success, the
  record of its failure. Every call of \<open>_print_results\<close> leaves at least one of them.
\<close>

fun presenter_event :: "event \<Rightarrow> bool" where
  "presenter_event (Print _) = True"
| "presenter_event (Log _ ResultsPrinted) = True"
| "presenter_event (Log _ (PrintError _)) = True"
| "presenter_event _ = False"

text \<open>Events that are neither the close of the session nor the presenter's.\<close>

definition quiet :: "event \<Rightarrow> bool" where
  "quiet e = (e \<noteq> Close \<and> \<not> presenter_event e)"

text \<open>A step that only appends events, all of them of one kind.\<close>

definition emits :: "(event \<Rightarrow> bool) \<Rightarrow> 'a prog \<Rightarrow> bool" where
  "emits Q m = (\<forall>w. \<exists>es. snd (m w) = w @ es \<and> list_all Q es)"

text \<open>A step that the interrupt never leaves.\<close>

definition calm :: "'a prog \<Rightarrow> bool" where
  "calm m = (\<forall>w. fst (m w) \<noteq> Inl KeyboardInterrupt)"

text \<open>What the \<open>finally\<close> block of \<open>run\<close> appends: the close, then the record of how it went.\<close>

definition closing :: "env \<Rightarrow> event list" where
  "closing ev =
     [Close, case close_error ev of
               None \<Rightarrow> Log INFO SessionClosed
             | Some e \<Rightarrow> Log ERROR (SessionCloseError e)]"

section \<open>The specification's reading of a cell's text\<close>

text \<open>
  The specification speaks of the text of a cell or link, trimmed of surrounding
  whitespace: the whole text below the tag, stripped once at both ends. This definition
  follows those words; \<open>get_text_strip\<close> above is what the program calls.
\<close>

definition trimmed_text :: "node \<Rightarrow> string" where
  "trimmed_text n = py_strip (concat (all_strings n))"

text \<open>A row in that reading: the trimmed text of each cell after the first four.\<close>

definition trimmed_row :: "node \<Rightarrow> string list" where
  "trimmed_row tr = map trimmed_text (drop 4 (find_all ''td'' AnyAttrs tr))"

text \<open>
  The hidden fields of a form, the specification's \<open>H\<close>: the name and value of every
  hidden input below the form that has both attributes, in document order.
\<close>

definition hidden_pair :: "node \<Rightarrow> (string \<times> string) list" where
  "hidden_pair h =
     (case (attrs h ''name'', attrs h ''value'') of
        (Some n, Some v) \<Rightarrow> [(n, v)]
      | _ \<Rightarrow> [])"

definition hidden_pairs :: "node \<Rightarrow> (string \<times> string) list" where
  "hidden_pairs form =
     concat (map hidden_pair (find_all ''input'' (AttrEq ''type'' ''hidden'') form))"

section \<open>Sample inputs\<close>

text \<open>Tags without attributes, and tags with one class.\<close>

definition el :: "string \<Rightarrow> node list \<Rightarrow> node" where
  "el name kids = Element name [] Map.empty kids"

definition el_class :: "string \<Rightarrow> string \<Rightarrow> node list \<Rightarrow> node" where
  "el_class name c kids = Element name [c] Map.empty kids"

text \<open>
  A results page: four header cells (three wrapped in a link), one body row of six cells
  whose first four are action controls.
\<close>

definition sample_body :: node where
  "sample_body =
     el ''tbody''
       [el ''tr''
          [el ''td'' [], el ''td'' [Text ''edit''], el ''td'' [], el ''td'' [],
           el ''td'' [Text ''42''], el ''td'' [Text '' Alice'']]]"

definition sample_results :: node where
  "sample_results =
     el_class ''table'' ''table_results''
       [el ''thead''
          [el ''tr''
             [el_class ''th'' ''column_heading'' [el ''a'' [Text ''ID'']],
              el_class ''th'' ''column_heading'' [el ''a'' [Text '' Name '']],
              el_class ''th'' ''column_heading'' [Text ''Email''],
              el_class ''th'' ''column_heading'' [el ''a'' [Text ''Created'']]]],
        sample_body]"

definition sample_page :: node where
  "sample_page = el ''[document]'' [sample_results]"

text \<open>
  An environment with no network whose parser builds the given tree for every string, and
  one whose parser rejects every string.
\<close>

definition page_env :: "node \<Rightarrow> env" where
  "page_env soup =
     \<lparr>server = (\<lambda>_ _. Inl (Exception (RequestException ''offline''))),
      html_parser = (\<lambda>_. Inr soup),
      console = (\<lambda>_. None),
      close_error = None\<rparr>"

definition broken_parser :: env where
  "broken_parser =
     \<lparr>server = (\<lambda>_ _. Inl (Exception (RequestException ''offline''))),
      html_parser = (\<lambda>_. Inl (OtherException ''markup rejected'')),
      console = (\<lambda>_. None),
      close_error = None\<rparr>"

text \<open>A page without a results table.\<close>

definition plain_page :: node where
  "plain_page = el ''[document]'' [el ''p'' [Text ''Access denied'']]"

text \<open>A results table whose rows stand directly in the table, with no \<open>tbody\<close> tag.\<close>

definition no_tbody_page :: node where
  "no_tbody_page =
     el ''[document]''
       [el_class ''table'' ''table_results''
          [el ''tr'' [el_class ''th'' ''column_heading'' [Text ''A'']],
           el ''tr'' [el ''td'' [], el ''td'' [], el ''td'' [], el ''td'' [], el ''td'' [Text ''1'']]]]"

text \<open>A results table with header cells and no \<open>tbody\<close> tag at all.\<close>

definition headers_only_table :: node where
  "headers_only_table =
     el_class ''table'' ''table_results''
       [el ''thead'' [el ''tr'' [el_class ''th'' ''column_heading'' [Text ''A'']]]]"

definition headers_only_page :: node where
  "headers_only_page = el ''[document]'' [headers_only_table]"

text \<open>A results table with header cells and an empty \<open>tbody\<close>.\<close>

definition empty_body_table :: node where
  "empty_body_table =
     el_class ''table'' ''table_results''
       [el ''thead'' [el ''tr'' [el_class ''th'' ''column_heading'' [Text ''A'']]],
        el ''tbody'' []]"

definition empty_body_page :: node where
  "empty_body_page = el ''[document]'' [empty_body_table]"

text \<open>A results table whose data cell holds text and an inline tag with more text.\<close>

definition mixed_body :: node where
  "mixed_body =
     el ''tbody''
       [el ''tr''
          [el ''td'' [], el ''td'' [], el ''td'' [], el ''td'' [],
           el ''td'' [Text ''a '', el ''b'' [Text ''b'']]]]"

definition mixed_table :: node where
  "mixed_table =
     el_class ''table'' ''table_results''
       [el ''thead'' [el ''tr'' [el_class ''th'' ''column_heading'' [Text ''A'']]],
        mixed_body]"

definition mixed_cell_page :: node where
  "mixed_cell_page = el ''[document]'' [mixed_table]"

text \<open>
  Login pages: a form with two hidden inputs that have a value (and one without), and a
  form whose two hidden inputs share a name. The server of \<open>login_env\<close> serves the page
  and refuses the POST.
\<close>

definition hidden_input :: "string \<Rightarrow> string \<Rightarrow> node" where
  "hidden_input n v =
     Element ''input'' [] [''type'' \<mapsto> ''hidden'', ''name'' \<mapsto> n, ''value'' \<mapsto> v] []"

definition login_form_of :: "node list \<Rightarrow> node" where
  "login_form_of inputs = Element ''form'' [] [''id'' \<mapsto> ''login_form''] inputs"

definition token_form :: node where
  "token_form =
     login_form_of
       [Element ''input'' [] [''type'' \<mapsto> ''text'', ''name'' \<mapsto> ''pma_username''] [],
        hidden_input ''set_session'' ''abc'',
        Element ''input'' [] [''type'' \<mapsto> ''hidden'', ''name'' \<mapsto> ''novalue''] [],
        hidden_input ''token'' ''xyz'']"

definition twice_form :: node where
  "twice_form = login_form_of [hidden_input ''token'' ''a'', hidden_input ''token'' ''b'']"

definition login_env :: "node \<Rightarrow> env" where
  "login_env form =
     \<lparr>server = (\<lambda>_ rq. case rq of
                          GET _ \<Rightarrow> Inr \<lparr>status_code = 200, resp_text = ''login''\<rparr>
                        | POST _ _ \<Rightarrow> Inl (Exception (RequestException ''refused''))),
      html_parser = (\<lambda>_. Inr (el ''[document]'' [el ''body'' [form]])),
      console = (\<lambda>_. None),
      close_error = None\<rparr>"

definition admin :: scraper where
  "admin = init ''http://pma/'' ''root'' ''secret'' ''shop'' ''orders''"

text \<open>
  A site: the answer to the first GET (the login page), to the POST and to the later GET
  (the table view), and the tree of the table view. The console accepts every line.
\<close>

definition login_page :: node where
  "login_page = el ''[document]'' [el ''body'' [token_form]]"

definition site ::
  "(thrown + response) \<Rightarrow> (thrown + response) \<Rightarrow> (thrown + response) \<Rightarrow> node \<Rightarrow> env" where
  "site login_get login_post table_get table_soup =
     \<lparr>server = (\<lambda>hist rq. case rq of
                             POST _ _ \<Rightarrow> login_post
                           | GET _ \<Rightarrow> (if hist = [] then login_get else table_get)),
      html_parser = (\<lambda>s. if s = ''login'' then Inr login_page else Inr table_soup),
      console = (\<lambda>_. None),
      close_error = None\<rparr>"

definition page :: "string \<Rightarrow> thrown + response" where
  "page s = Inr \<lparr>status_code = 200, resp_text = s\<rparr>"

definition shop :: env where
  "shop = site (page ''login'') (page ''<div id=pma_navigation_tree>'') (page ''table'') sample_page"

text \<open>The lines a trace prints, in order.\<close>

fun printed :: "event list \<Rightarrow> out list" where
  "printed [] = []"
| "printed (Print ln # es) = ln # printed es"
| "printed (_ # es) = printed es"

text \<open>
  Sites for each way a run can go: the table has an empty body, the login page is
  refused, the POST is answered 403, the table view times out, the process is
  interrupted during the POST, the table has no \<open>tbody\<close>. The traces name the events of the steps that succeed on all of them.
\<close>

definition nav_page :: "thrown + response" where
  "nav_page = page ''<div id=pma_navigation_tree>''"

definition shop_empty :: env where
  "shop_empty = site (page ''login'') nav_page (page ''table'') empty_body_page"

definition refused_site :: env where
  "refused_site =
     site (Inl (Exception (RequestException ''refused''))) nav_page (page ''table'') sample_page"

definition forbidden_site :: env where
  "forbidden_site =
     site (page ''login'') (Inr \<lparr>status_code = 403, resp_text = ''''\<rparr>) (page ''table'') sample_page"

definition timeout_site :: env where
  "timeout_site =
     site (page ''login'') nav_page (Inl (Exception (RequestException ''timeout''))) sample_page"

definition interrupted_site :: env where
  "interrupted_site = site (page ''login'') (Inl KeyboardInterrupt) (page ''table'') sample_page"

definition no_tbody_site :: env where
  "no_tbody_site = site (page ''login'') nav_page (page ''table'') no_tbody_page"

definition sample_payload :: payload where
  "sample_payload =
     [''pma_username'' \<mapsto> ''root'', ''pma_password'' \<mapsto> ''secret'',
      ''set_session'' \<mapsto> ''abc'', ''token'' \<mapsto> ''xyz'']"

definition form_trace :: "event list" where
  "form_trace = [Log INFO FetchingLoginPage, Request (GET ''http://pma/index.php?route=/'')]"

definition login_trace :: "event list" where
  "login_trace =
     form_trace @
     [Log INFO SendingCredentials,
      Request (POST ''http://pma/index.php?route=/'' sample_payload),
      Log INFO AuthSucceeded]"

definition table_trace :: "event list" where
  "table_trace =
     login_trace @
     [Log INFO (FetchingTable ''orders''),
      Request (GET ''http://pma/index.php?route=/sql&db=shop&table=orders'')]"

section \<open>Properties\<close>

lemma py_in_sublist: "py_in needle hay = sublist needle hay"
proof (induction hay)
  case Nil
  show ?case by auto
next
  case (Cons c cs)
  then show ?case by (simp add: sublist_Cons_right)
qed

lemma py_in_iff: "py_in needle hay \<longleftrightarrow> (\<exists>ps ss. hay = ps @ needle @ ss)"
  by (simp add: py_in_sublist sublist_def)

text \<open>
  C1. \<open>_check_auth_success\<close> returns (never raises), and its result is true exactly when
  the response body contains \<open>frame_navigation\<close> or contains \<open>pma_navigation_tree\<close> as a
  contiguous substring; with neither marker in the body the result is false.
\<close>

theorem check_auth_success_iff_marker:
  "fst (check_auth_success r w) =
     Inr ((\<exists>ps ss. resp_text r = ps @ ''frame_navigation'' @ ss) \<or>
          (\<exists>ps ss. resp_text r = ps @ ''pma_navigation_tree'' @ ss))"
  by (simp add: check_auth_success_def try_except_def seq_def bind_def logger_def return_def
      py_in_iff del: append_assoc)

subsection \<open>Unfolding sets\<close>

lemmas prog_defs = return_def raise_def bind_def seq_def try_except_def try_except2_def
  try_finally_def lift_def logger_def logger_debug_def py_print_def any_exception_def

lemmas dom_defs = find_def find_all_def get_text_strip_def all_strings_def py_strip_def
  py_isspace_def header_text_def row_data_def el_def el_class_def

subsection \<open>The presenter\<close>

lemma foldl_snoc_map: "foldl (\<lambda>acc x. acc @ [f x]) ini xs = ini @ map f xs"
  by (induction xs arbitrary: ini) simp_all

lemma print_rows_ok:
  "\<forall>ln. console ev ln = None \<Longrightarrow>
   print_rows ev rows w = (Inr (), w @ map (\<lambda>row. Print (Line (join '' | '' row))) rows)"
  by (induction rows arbitrary: w) (simp_all add: prog_defs)

lemma sum_list_int_length:
  "sum_list (map (\<lambda>h. int (length h)) hs) = int (sum_list (map length hs))"
  by (induction hs) simp_all

lemma separator_width_nat:
  "headers \<noteq> [] \<Longrightarrow>
   separator_width headers = int (sum_list (map length headers) + 3 * (length headers - 1))"
  by (cases headers) (simp_all add: separator_width_def sum_list_int_length)

lemma py_repeat_width:
  "headers \<noteq> [] \<Longrightarrow>
   py_repeat c (separator_width headers) =
     replicate (sum_list (map length headers) + 3 * (length headers - 1)) c"
  by (simp add: separator_width_nat py_repeat_def del: of_nat_add of_nat_mult)

text \<open>The separator is as long as the header line above it.\<close>

lemma length_join:
  "length (join sep xs) = sum_list (map length xs) + length sep * (length xs - 1)"
  by (induction sep xs rule: join.induct) simp_all

text \<open>
  C9. For a non-empty list of headers and any rows, on a console that accepts every line,
  \<open>_print_results\<close> prints the banner, then the headers joined by \<open>" | "\<close>, then a line of
  dashes whose length is the sum of the header lengths plus three times the number of
  headers minus one, then each row joined by \<open>" | "\<close>, in order; it then logs success and
  returns.
\<close>

theorem print_results_lines:
  assumes "headers \<noteq> []" and "\<forall>ln. console ev ln = None"
  shows "print_results ev headers rows w =
     (Inr (), w @ [Print Banner,
                   Print (Line (join '' | '' headers)),
                   Print (Line (replicate
                     (sum_list (map length headers) + 3 * (length headers - 1)) CHR ''-''))]
                @ map (\<lambda>row. Print (Line (join '' | '' row))) rows
                @ [Log INFO ResultsPrinted])"
  using assms
  by (simp add: print_results_def prog_defs print_rows_ok py_repeat_width)

theorem print_results_lines_witness:
  "[''A'', ''BB''] \<noteq> [] \<and> (\<forall>ln. console (page_env sample_page) ln = None) \<and>
   print_results (page_env sample_page) [''A'', ''BB''] [[''1'', ''2'']] [] =
     (Inr (), [Print Banner, Print (Line ''A | BB''), Print (Line ''------''),
               Print (Line ''1 | 2''), Log INFO ResultsPrinted])"
proof -
  have c: "\<forall>ln. console (page_env sample_page) ln = None"
    by (simp add: page_env_def)
  have h: "[''A'', ''BB''] \<noteq> []"
    by simp
  show ?thesis
    using print_results_lines [OF h c, of "[[''1'', ''2'']]" "[]"] c
    by (simp add: numeral_eq_Suc)
qed

subsection \<open>The table parser\<close>

lemma parse_table_body_found:
  assumes "html_parser ev html = Inr soup"
      and "find ''table'' (HasClass ''table_results'') soup = Some t"
      and "find ''tbody'' AnyAttrs t = Some b"
  shows "parse_table_body ev html w =
     (Inr (Some (map header_text (find_all ''th'' (HasClass ''column_heading'') t)),
           Some (map row_data (find_all ''tr'' AnyAttrs b))),
      w @ [Log INFO (RowsParsed (length (find_all ''tr'' AnyAttrs b)))])"
  using assms by (simp add: parse_table_body_def prog_defs foldl_snoc_map)

lemma parse_table_body_no_tbody:
  assumes "html_parser ev html = Inr soup"
      and "find ''table'' (HasClass ''table_results'') soup = Some t"
      and "find ''tbody'' AnyAttrs t = None"
  shows "parse_table_body ev html w = (Inl (Exception AttributeError), w)"
  using assms by (simp add: parse_table_body_def prog_defs)

lemma parse_table_body_no_table:
  assumes "html_parser ev html = Inr soup"
      and "find ''table'' (HasClass ''table_results'') soup = None"
  shows "parse_table_body ev html w = (Inr (None, None), w @ [Log WARNING TableNotFound])"
  using assms by (simp add: parse_table_body_def prog_defs)

lemma parse_table_body_parser_raises:
  assumes "html_parser ev html = Inl e"
  shows "parse_table_body ev html w = (Inl (Exception e), w)"
  using assms by (simp add: parse_table_body_def prog_defs)

lemma parse_table_body_cases:
  "(\<exists>e w'. parse_table_body ev html w = (Inl (Exception e), w')) \<or>
   (\<exists>w'. parse_table_body ev html w = (Inr (None, None), w')) \<or>
   (\<exists>hs rs w'. parse_table_body ev html w = (Inr (Some hs, Some rs), w'))"
proof (cases "html_parser ev html")
  case (Inl e)
  then show ?thesis by (simp add: parse_table_body_parser_raises)
next
  case (Inr soup)
  show ?thesis
  proof (cases "find ''table'' (HasClass ''table_results'') soup")
    case None
    with Inr show ?thesis by (simp add: parse_table_body_no_table)
  next
    case (Some t)
    show ?thesis
    proof (cases "find ''tbody'' AnyAttrs t")
      case None
      with Inr Some show ?thesis by (simp add: parse_table_body_no_tbody)
    next
      case (Some b)
      with Inr \<open>find ''table'' (HasClass ''table_results'') soup = Some t\<close>
      show ?thesis by (simp add: parse_table_body_found)
    qed
  qed
qed

lemma parse_table_data_of_body:
  "parse_table_data ev html w =
     (case parse_table_body ev html w of
        (Inl (Exception e), w') \<Rightarrow> (Inr (None, None), w' @ [Log ERROR (ParseError e)])
      | (Inl KeyboardInterrupt, w') \<Rightarrow> (Inl KeyboardInterrupt, w')
      | (Inr r, w') \<Rightarrow> (Inr r, w'))"
  by (simp add: parse_table_data_def prog_defs split: prod.splits sum.splits thrown.splits)

lemma join_no_space:
  assumes "CHR '' '' \<notin> set v" and "join '' '' cl = v" and "v \<noteq> []"
  shows "v \<in> set cl"
proof (cases cl)
  case Nil
  with assms show ?thesis by simp
next
  case (Cons x xs)
  show ?thesis
  proof (cases xs)
    case Nil
    with Cons assms show ?thesis by simp
  next
    case (Cons y ys)
    with \<open>cl = x # xs\<close> assms show ?thesis by auto
  qed
qed

lemma find_None_iff: "find name crit n = None \<longleftrightarrow> (\<forall>d\<in>set (descendants n). \<not> matches name crit d)"
proof -
  have "find name crit n = None \<longleftrightarrow> filter (matches name crit) (descendants n) = []"
    by (simp add: find_def find_all_def split: list.splits)
  then show ?thesis by (simp add: filter_empty_conv)
qed

lemma no_class_no_table:
  assumes "\<forall>n\<in>set (descendants soup). ''table_results'' \<notin> set (classes n)"
  shows "find ''table'' (HasClass ''table_results'') soup = None"
proof -
  have "\<not> matches ''table'' (HasClass ''table_results'') d" if "d \<in> set (descendants soup)" for d
  proof
    assume m: "matches ''table'' (HasClass ''table_results'') d"
    from that assms have n: "''table_results'' \<notin> set (classes d)" by blast
    with m have "join '' '' (classes d) = ''table_results''" by simp
    then have "''table_results'' \<in> set (classes d)"
      by (intro join_no_space) simp_all
    with n show False by contradiction
  qed
  then show ?thesis by (simp add: find_None_iff)
qed

text \<open>
  C3. \<open>_parse_table_data\<close> never raises: for every parser outcome and every input it
  returns either the pair \<open>(None, None)\<close> or a pair of a header list and a row list. When
  the parsed page has no element of class \<open>table_results\<close> the result is \<open>(None, None)\<close>,
  and whenever the body of its \<open>try\<close> raises an exception the result is \<open>(None, None)\<close>.
\<close>

theorem parse_table_data_never_raises:
  "(\<exists>r. fst (parse_table_data ev html w) = Inr r \<and>
        (r = (None, None) \<or> (\<exists>hs rs. r = (Some hs, Some rs)))) \<and>
   (\<forall>soup. html_parser ev html = Inr soup \<and>
        (\<forall>n\<in>set (descendants soup). ''table_results'' \<notin> set (classes n)) \<longrightarrow>
        fst (parse_table_data ev html w) = Inr (None, None)) \<and>
   (\<forall>e. fst (parse_table_body ev html w) = Inl e \<longrightarrow>
        fst (parse_table_data ev html w) = Inr (None, None))"
proof (intro conjI allI impI)
  show "\<exists>r. fst (parse_table_data ev html w) = Inr r \<and>
        (r = (None, None) \<or> (\<exists>hs rs. r = (Some hs, Some rs)))"
    using parse_table_body_cases [of ev html w]
    by (auto simp: parse_table_data_of_body)
next
  fix soup
  assume "html_parser ev html = Inr soup \<and>
        (\<forall>n\<in>set (descendants soup). ''table_results'' \<notin> set (classes n))"
  then show "fst (parse_table_data ev html w) = Inr (None, None)"
    by (simp add: parse_table_data_of_body parse_table_body_no_table no_class_no_table)
next
  fix e
  assume "fst (parse_table_body ev html w) = Inl e"
  with parse_table_body_cases [of ev html w]
  show "fst (parse_table_data ev html w) = Inr (None, None)"
    by (auto simp: parse_table_data_of_body)
qed

theorem parse_table_data_never_raises_witness:
  "html_parser (page_env plain_page) ''<p>Access denied</p>'' = Inr plain_page \<and>
   list_all (\<lambda>n. ''table_results'' \<notin> set (classes n)) (descendants plain_page) \<and>
   fst (parse_table_data (page_env plain_page) ''<p>Access denied</p>'' []) = Inr (None, None) \<and>
   fst (parse_table_body broken_parser ''<p'' []) =
     Inl (Exception (OtherException ''markup rejected'')) \<and>
   fst (parse_table_data broken_parser ''<p'' []) = Inr (None, None)"
proof -
  have p: "html_parser (page_env plain_page) ''<p>Access denied</p>'' = Inr plain_page"
    by (simp add: page_env_def)
  have c: "\<forall>n\<in>set (descendants plain_page). ''table_results'' \<notin> set (classes n)"
    by (simp add: plain_page_def el_def)
  have b: "fst (parse_table_body broken_parser ''<p'' []) =
     Inl (Exception (OtherException ''markup rejected''))"
    by (simp add: parse_table_body_def broken_parser_def prog_defs)
  from parse_table_data_never_raises [of "page_env plain_page" "''<p>Access denied</p>''" "[]"] p c
  have 1: "fst (parse_table_data (page_env plain_page) ''<p>Access denied</p>'' []) = Inr (None, None)"
    by blast
  from parse_table_data_never_raises [of broken_parser "''<p''" "[]"] b
  have 2: "fst (parse_table_data broken_parser ''<p'' []) = Inr (None, None)"
    by blast
  from p c b 1 2 show ?thesis by (simp add: list_all_iff)
qed

text \<open>
  C10. When the results table has no \<open>tbody\<close> tag below it, \<open>_parse_table_data\<close> returns
  \<open>(None, None)\<close> whatever header cells and row tags the table holds: the lookup of
  \<open>tbody\<close> gives \<open>None\<close>, the call on it raises \<open>AttributeError\<close>, and the handler logs
  the error and returns the sentinel.
\<close>

theorem parse_table_data_no_tbody:
  assumes "html_parser ev html = Inr soup"
      and "find ''table'' (HasClass ''table_results'') soup = Some t"
      and "find ''tbody'' AnyAttrs t = None"
  shows "parse_table_data ev html w = (Inr (None, None), w @ [Log ERROR (ParseError AttributeError)])"
  using assms by (simp add: parse_table_data_of_body parse_table_body_no_tbody)

lemma no_tbody_page_table:
  "find ''table'' (HasClass ''table_results'') no_tbody_page =
     Some (el_class ''table'' ''table_results''
          [el ''tr'' [el_class ''th'' ''column_heading'' [Text ''A'']],
           el ''tr'' [el ''td'' [], el ''td'' [], el ''td'' [], el ''td'' [], el ''td'' [Text ''1'']]])"
  by (simp add: no_tbody_page_def dom_defs)

theorem parse_table_data_no_tbody_witness:
  "(\<exists>t. html_parser (page_env no_tbody_page) ''<table>'' = Inr no_tbody_page \<and>
     find ''table'' (HasClass ''table_results'') no_tbody_page = Some t \<and>
     find ''tbody'' AnyAttrs t = None \<and>
     map header_text (find_all ''th'' (HasClass ''column_heading'') t) = [''A''] \<and>
     map row_data (find_all ''tr'' AnyAttrs t) = [[], [''1'']]) \<and>
   parse_table_data (page_env no_tbody_page) ''<table>'' [] =
     (Inr (None, None), [Log ERROR (ParseError AttributeError)])"
proof -
  let ?t = "el_class ''table'' ''table_results''
          [el ''tr'' [el_class ''th'' ''column_heading'' [Text ''A'']],
           el ''tr'' [el ''td'' [], el ''td'' [], el ''td'' [], el ''td'' [], el ''td'' [Text ''1'']]]"
  have p: "html_parser (page_env no_tbody_page) ''<table>'' = Inr no_tbody_page"
    by (simp add: page_env_def)
  have b: "find ''tbody'' AnyAttrs ?t = None"
    by (simp add: dom_defs)
  have h: "map header_text (find_all ''th'' (HasClass ''column_heading'') ?t) = [''A'']"
    by (simp add: dom_defs)
  have r: "map row_data (find_all ''tr'' AnyAttrs ?t) = [[], [''1'']]"
    by (simp add: dom_defs)
  from parse_table_data_no_tbody [OF p no_tbody_page_table b, of "[]"] p no_tbody_page_table b h r
  show ?thesis by simp
qed

subsection \<open>Stripping\<close>

lemma dropWhile_all_iff: "(\<forall>x\<in>set (dropWhile P xs). P x) \<longleftrightarrow> (\<forall>x\<in>set xs. P x)"
proof
  assume a: "\<forall>x\<in>set (dropWhile P xs). P x"
  have "dropWhile P xs = []"
  proof (rule ccontr)
    assume n: "dropWhile P xs \<noteq> []"
    then have "hd (dropWhile P xs) \<in> set (dropWhile P xs)" by simp
    with a have "P (hd (dropWhile P xs))" by blast
    with n show False by (simp add: hd_dropWhile)
  qed
  then show "\<forall>x\<in>set xs. P x" by (simp add: dropWhile_eq_Nil_conv)
next
  assume "\<forall>x\<in>set xs. P x"
  then show "\<forall>x\<in>set (dropWhile P xs). P x" by (auto dest: set_dropWhileD)
qed

lemma py_strip_Nil_iff: "py_strip s = [] \<longleftrightarrow> (\<forall>c\<in>set s. py_isspace c)"
  by (simp add: py_strip_def dropWhile_eq_Nil_conv dropWhile_all_iff)

lemma py_strip_blank_left:
  assumes "py_strip a = []"
  shows "py_strip (a @ s) = py_strip s"
proof -
  from assms have "\<And>c. c \<in> set a \<Longrightarrow> py_isspace c"
    by (simp add: py_strip_Nil_iff)
  then have "dropWhile py_isspace (a @ s) = dropWhile py_isspace s"
    by (rule dropWhile_append2)
  then show ?thesis by (simp add: py_strip_def)
qed

lemma py_strip_blank_right:
  assumes "py_strip a = []"
  shows "py_strip (s @ a) = py_strip s"
proof (cases "py_strip s = []")
  case True
  with assms have "py_strip (s @ a) = []"
    by (auto simp: py_strip_Nil_iff)
  with True show ?thesis by simp
next
  case False
  then obtain c where c: "c \<in> set s" "\<not> py_isspace c"
    by (auto simp: py_strip_Nil_iff)
  then have d: "dropWhile py_isspace (s @ a) = dropWhile py_isspace s @ a"
    by (simp add: dropWhile_append1)
  from assms have "\<And>x. x \<in> set (rev a) \<Longrightarrow> py_isspace x"
    by (simp add: py_strip_Nil_iff)
  then have "dropWhile py_isspace (rev a @ rev (dropWhile py_isspace s)) =
             dropWhile py_isspace (rev (dropWhile py_isspace s))"
    by (rule dropWhile_append2)
  with d show ?thesis by (simp add: py_strip_def)
qed

lemma concat_blank:
  assumes "\<forall>s\<in>set ss. py_strip s = []"
  shows "py_strip (concat ss) = []"
  using assms by (auto simp: py_strip_Nil_iff)

lemma strip_pieces_one:
  "length (filter (\<lambda>s. py_strip s \<noteq> []) ss) \<le> 1 \<Longrightarrow>
   concat (filter (\<lambda>s. s \<noteq> []) (map py_strip ss)) = py_strip (concat ss)"
proof (induction ss)
  case Nil
  show ?case by (simp add: py_strip_def)
next
  case (Cons s ss)
  show ?case
  proof (cases "py_strip s = []")
    case True
    with Cons show ?thesis by (simp add: py_strip_blank_left)
  next
    case False
    with Cons.prems have "filter (\<lambda>s. py_strip s \<noteq> []) ss = []" by simp
    then have b: "\<forall>t\<in>set ss. py_strip t = []"
      by (simp add: filter_empty_conv)
    then have "filter (\<lambda>s. s \<noteq> []) (map py_strip ss) = []"
      by (simp add: filter_empty_conv)
    with False b show ?thesis
      by (simp add: py_strip_blank_right concat_blank)
  qed
qed

lemma get_text_strip_trimmed:
  "length (filter (\<lambda>s. py_strip s \<noteq> []) (all_strings n)) \<le> 1 \<Longrightarrow>
   get_text_strip n = trimmed_text n"
  by (simp add: get_text_strip_def trimmed_text_def strip_pieces_one)

subsection \<open>Headers and rows\<close>

lemmas sample_defs = sample_page_def sample_results_def sample_body_def
  mixed_cell_page_def mixed_table_def mixed_body_def
  empty_body_page_def empty_body_table_def headers_only_page_def headers_only_table_def

text \<open>
  C4 (amended). For a page whose results table has a \<open>tbody\<close>, \<open>_parse_table_data\<close>
  returns, in document order, for each header cell of class \<open>column_heading\<close> the text of
  its first link if it has one and of the cell otherwise, and for each row tag of the body
  the texts of its cells after the first four, in order. The text of a tag is what
  \<open>get_text(strip=True)\<close> gives: its text pieces, each stripped, joined with nothing
  between them. That is the trimmed text of the tag whenever at most one of its pieces is
  not blank.
\<close>

theorem parse_table_data_headers_rows:
  assumes "html_parser ev html = Inr soup"
      and "find ''table'' (HasClass ''table_results'') soup = Some t"
      and "find ''tbody'' AnyAttrs t = Some b"
  shows "fst (parse_table_data ev html w) =
       Inr (Some (map (\<lambda>th. case find ''a'' AnyAttrs th of
                               Some a \<Rightarrow> get_text_strip a
                             | None \<Rightarrow> get_text_strip th)
                    (find_all ''th'' (HasClass ''column_heading'') t)),
            Some (map (\<lambda>tr. map get_text_strip (drop 4 (find_all ''td'' AnyAttrs tr)))
                    (find_all ''tr'' AnyAttrs b))) \<and>
     (\<forall>n. length (filter (\<lambda>s. py_strip s \<noteq> []) (all_strings n)) \<le> 1 \<longrightarrow>
          get_text_strip n = trimmed_text n)"
proof -
  have h: "header_text = (\<lambda>th. case find ''a'' AnyAttrs th of
                               Some a \<Rightarrow> get_text_strip a
                             | None \<Rightarrow> get_text_strip th)"
    by (rule ext) (simp add: header_text_def)
  have r: "row_data = (\<lambda>tr. map get_text_strip (drop 4 (find_all ''td'' AnyAttrs tr)))"
    by (rule ext) (simp add: row_data_def)
  from assms show ?thesis
    by (simp add: parse_table_data_of_body parse_table_body_found get_text_strip_trimmed
        flip: h r)
qed

theorem parse_table_data_headers_rows_witness:
  "html_parser (page_env sample_page) ''<table>'' = Inr sample_page \<and>
   find ''table'' (HasClass ''table_results'') sample_page = Some sample_results \<and>
   find ''tbody'' AnyAttrs sample_results = Some sample_body \<and>
   fst (parse_table_data (page_env sample_page) ''<table>'' []) =
     Inr (Some [''ID'', ''Name'', ''Email'', ''Created''], Some [[''42'', ''Alice'']]) \<and>
   length (filter (\<lambda>s. py_strip s \<noteq> []) (all_strings (el ''td'' [Text '' Alice'']))) \<le> 1 \<and>
   get_text_strip (el ''td'' [Text '' Alice'']) = trimmed_text (el ''td'' [Text '' Alice''])"
proof -
  have p: "html_parser (page_env sample_page) ''<table>'' = Inr sample_page"
    by (simp add: page_env_def)
  have t: "find ''table'' (HasClass ''table_results'') sample_page = Some sample_results"
    by (simp add: sample_defs dom_defs)
  have b: "find ''tbody'' AnyAttrs sample_results = Some sample_body"
    by (simp add: sample_defs dom_defs)
  have l: "length (filter (\<lambda>s. py_strip s \<noteq> []) (all_strings (el ''td'' [Text '' Alice'']))) \<le> 1"
    by (simp add: dom_defs)
  note inst = parse_table_data_headers_rows [OF p t b, of "[]"]
  from inst l have e: "get_text_strip (el ''td'' [Text '' Alice'']) = trimmed_text (el ''td'' [Text '' Alice''])"
    by blast
  from inst have "fst (parse_table_data (page_env sample_page) ''<table>'' []) =
     Inr (Some [''ID'', ''Name'', ''Email'', ''Created''], Some [[''42'', ''Alice'']])"
    by (simp add: sample_defs dom_defs)
  with p t b l e show ?thesis by simp
qed

text \<open>
  The claim as stated, with the trimmed text of every cell, fails for a cell that holds
  \<open>a\<close> and a space, then a bold \<open>b\<close>: the program returns \<open>ab\<close>, the trimmed text
  is \<open>a b\<close>.
\<close>

theorem parse_table_data_trimmed_counterexample:
  "html_parser (page_env mixed_cell_page) ''<table>'' = Inr mixed_cell_page \<and>
   find ''table'' (HasClass ''table_results'') mixed_cell_page = Some mixed_table \<and>
   find ''tbody'' AnyAttrs mixed_table = Some mixed_body \<and>
   fst (parse_table_data (page_env mixed_cell_page) ''<table>'' []) =
     Inr (Some [''A''], Some [[''ab'']]) \<and>
   map row_data (find_all ''tr'' AnyAttrs mixed_body) = [[''ab'']] \<and>
   map trimmed_row (find_all ''tr'' AnyAttrs mixed_body) = [[''a b'']]"
  by (simp add: parse_table_data_def parse_table_body_def prog_defs page_env_def
      sample_defs dom_defs trimmed_text_def trimmed_row_def)

text \<open>
  C5 (amended). For a page whose results table has a \<open>tbody\<close> tag that holds no row
  tag, \<open>_parse_table_data\<close> returns the parsed headers paired with the empty row list,
  not \<open>(None, None)\<close>.
\<close>

theorem parse_table_data_empty_body:
  assumes "html_parser ev html = Inr soup"
      and "find ''table'' (HasClass ''table_results'') soup = Some t"
      and "find ''tbody'' AnyAttrs t = Some b"
      and "find_all ''tr'' AnyAttrs b = []"
  shows "parse_table_data ev html w =
     (Inr (Some (map header_text (find_all ''th'' (HasClass ''column_heading'') t)), Some []),
      w @ [Log INFO (RowsParsed 0)])"
  using assms by (simp add: parse_table_data_of_body parse_table_body_found)

theorem parse_table_data_empty_body_witness:
  "html_parser (page_env empty_body_page) ''<table>'' = Inr empty_body_page \<and>
   find ''table'' (HasClass ''table_results'') empty_body_page = Some empty_body_table \<and>
   find ''tbody'' AnyAttrs empty_body_table = Some (el ''tbody'' []) \<and>
   find_all ''tr'' AnyAttrs (el ''tbody'' []) = [] \<and>
   parse_table_data (page_env empty_body_page) ''<table>'' [] =
     (Inr (Some [''A''], Some []), [Log INFO (RowsParsed 0)])"
proof -
  have p: "html_parser (page_env empty_body_page) ''<table>'' = Inr empty_body_page"
    by (simp add: page_env_def)
  have t: "find ''table'' (HasClass ''table_results'') empty_body_page = Some empty_body_table"
    by (simp add: sample_defs dom_defs)
  have b: "find ''tbody'' AnyAttrs empty_body_table = Some (el ''tbody'' [])"
    by (simp add: sample_defs dom_defs)
  have r: "find_all ''tr'' AnyAttrs (el ''tbody'' []) = []"
    by (simp add: dom_defs)
  from parse_table_data_empty_body [OF p t b r, of "[]"]
  have "parse_table_data (page_env empty_body_page) ''<table>'' [] =
     (Inr (Some [''A''], Some []), [Log INFO (RowsParsed 0)])"
    by (simp add: sample_defs dom_defs)
  with p t b r show ?thesis by simp
qed

text \<open>
  The claim as stated fails for a results table with a header cell and no \<open>tbody\<close> tag:
  it has zero body rows, and the result is \<open>(None, None)\<close>.
\<close>

theorem parse_table_data_zero_rows_counterexample:
  "html_parser (page_env headers_only_page) ''<table>'' = Inr headers_only_page \<and>
   find ''table'' (HasClass ''table_results'') headers_only_page = Some headers_only_table \<and>
   map header_text (find_all ''th'' (HasClass ''column_heading'') headers_only_table) = [''A''] \<and>
   concat (map (find_all ''tr'' AnyAttrs) (find_all ''tbody'' AnyAttrs headers_only_table)) = [] \<and>
   fst (parse_table_data (page_env headers_only_page) ''<table>'' []) = Inr (None, None)"
  by (simp add: parse_table_data_def parse_table_body_def prog_defs page_env_def
      sample_defs dom_defs)

subsection \<open>The login form\<close>

lemma requests_of_append: "requests_of (xs @ ys) = requests_of xs @ requests_of ys"
  by (induction xs rule: requests_of.induct) simp_all

lemma add_hidden_pair: "add_hidden m h = m ++ map_of (hidden_pair h)"
  by (simp add: add_hidden_def hidden_pair_def split: option.splits)

lemma rev_hidden_pair: "rev (hidden_pair h) = hidden_pair h"
  by (simp add: hidden_pair_def split: option.splits)

lemma foldl_add_hidden:
  "foldl add_hidden m hs = m ++ map_of (rev (concat (map hidden_pair hs)))"
proof (induction hs arbitrary: m)
  case Nil
  show ?case by simp
next
  case (Cons h hs)
  have "foldl add_hidden m (h # hs) = foldl add_hidden (add_hidden m h) hs"
    by simp
  also have "\<dots> = add_hidden m h ++ map_of (rev (concat (map hidden_pair hs)))"
    by (rule Cons.IH)
  also have "\<dots> = m ++ map_of (rev (concat (map hidden_pair (h # hs))))"
    by (simp add: add_hidden_pair rev_hidden_pair)
  finally show ?case .
qed

lemma get_login_form_data_ok:
  assumes "server ev (requests_of w) (GET (login_url self)) = Inr response"
      and "\<not> (400 \<le> status_code response \<and> status_code response < 600)"
      and "html_parser ev (resp_text response) = Inr soup"
      and "find ''form'' (AttrEq ''id'' ''login_form'') soup = Some form"
  shows "get_login_form_data self ev w =
     (Inr ([''pma_username'' \<mapsto> username self, ''pma_password'' \<mapsto> password self]
            ++ map_of (rev (hidden_pairs form))),
      w @ [Log INFO FetchingLoginPage, Request (GET (login_url self))])"
  using assms
  by (simp add: get_login_form_data_def login_form_body_def send_checked_def prog_defs
      session_send_def raise_for_status_def requests_of_append foldl_add_hidden
      hidden_pairs_def find_all_def)

text \<open>
  C2 (amended). When the login page is fetched and holds the form \<open>login_form\<close> with
  hidden fields \<open>H\<close>, the payload returned by \<open>_get_login_form_data\<close> is the mapping of
  \<open>pma_username\<close> and \<open>pma_password\<close> to the configured credentials, overridden by the
  pairs of \<open>H\<close> in document order (a later pair replaces an earlier one of the same
  name). Its keys are the two credential keys and the names of \<open>H\<close>. When the names of
  \<open>H\<close> are pairwise distinct and differ from both credential keys, the payload is exactly
  the two credential entries united with \<open>H\<close>.
\<close>

theorem login_payload:
  assumes "server ev (requests_of w) (GET (login_url self)) = Inr response"
      and "\<not> (400 \<le> status_code response \<and> status_code response < 600)"
      and "html_parser ev (resp_text response) = Inr soup"
      and "find ''form'' (AttrEq ''id'' ''login_form'') soup = Some form"
  shows "\<exists>form_data. fst (get_login_form_data self ev w) = Inr form_data \<and>
     form_data = [''pma_username'' \<mapsto> username self, ''pma_password'' \<mapsto> password self]
                   ++ map_of (rev (hidden_pairs form)) \<and>
     dom form_data = {''pma_username'', ''pma_password''} \<union> fst ` set (hidden_pairs form) \<and>
     (distinct (map fst (hidden_pairs form)) \<and>
      ''pma_username'' \<notin> fst ` set (hidden_pairs form) \<and>
      ''pma_password'' \<notin> fst ` set (hidden_pairs form) \<longrightarrow>
        Map.graph form_data =
          {(''pma_username'', username self), (''pma_password'', password self)}
            \<union> set (hidden_pairs form))"
proof -
  let ?creds = "[''pma_username'' \<mapsto> username self, ''pma_password'' \<mapsto> password self]"
  let ?H = "hidden_pairs form"
  let ?fd = "?creds ++ map_of (rev ?H)"
  have 1: "fst (get_login_form_data self ev w) = Inr ?fd"
    using assms by (simp add: get_login_form_data_ok)
  have 2: "dom ?fd = {''pma_username'', ''pma_password''} \<union> fst ` set ?H"
    by (auto simp: dom_map_of_conv_image_fst)
  have 3: "Map.graph ?fd =
      {(''pma_username'', username self), (''pma_password'', password self)} \<union> set ?H"
    if d: "distinct (map fst ?H)" and u: "''pma_username'' \<notin> fst ` set ?H"
      and p: "''pma_password'' \<notin> fst ` set ?H"
  proof -
    from d have "distinct (map fst (rev ?H))" by (simp add: rev_map [symmetric])
    then have g: "Map.graph (map_of (rev ?H)) = set ?H"
      by (simp add: graph_map_of_if_distinct_dom)
    from u p have "dom ?creds \<inter> dom (map_of (rev ?H)) = {}"
      by (auto simp: dom_map_of_conv_image_fst)
    then have a: "Map.graph ?fd = Map.graph ?creds \<union> Map.graph (map_of (rev ?H))"
      by (rule graph_map_add)
    have c: "Map.graph ?creds =
        {(''pma_username'', username self), (''pma_password'', password self)}"
      by (auto simp: Map.graph_def split: if_splits)
    show ?thesis by (simp only: a c g)
  qed
  from 1 2 3 show ?thesis by blast
qed

lemmas login_defs = login_env_def admin_def init_def login_form_of_def hidden_input_def
  token_form_def twice_form_def hidden_pairs_def hidden_pair_def

theorem login_payload_witness:
  "server (login_env token_form) (requests_of []) (GET (login_url admin)) =
     Inr \<lparr>status_code = 200, resp_text = ''login''\<rparr> \<and>
   html_parser (login_env token_form) ''login'' = Inr (el ''[document]'' [el ''body'' [token_form]]) \<and>
   find ''form'' (AttrEq ''id'' ''login_form'') (el ''[document]'' [el ''body'' [token_form]]) =
     Some token_form \<and>
   hidden_pairs token_form = [(''set_session'', ''abc''), (''token'', ''xyz'')] \<and>
   (\<exists>form_data. fst (get_login_form_data admin (login_env token_form) []) = Inr form_data \<and>
      form_data ''pma_username'' = Some ''root'' \<and>
      form_data ''pma_password'' = Some ''secret'' \<and>
      form_data ''set_session'' = Some ''abc'' \<and>
      form_data ''token'' = Some ''xyz'' \<and>
      dom form_data = {''set_session'', ''token'', ''pma_username'', ''pma_password''} \<and>
      Map.graph form_data =
        {(''set_session'', ''abc''), (''token'', ''xyz''),
         (''pma_username'', ''root''), (''pma_password'', ''secret'')})"
proof -
  let ?r = "\<lparr>status_code = 200, resp_text = ''login''\<rparr>"
  let ?soup = "el ''[document]'' [el ''body'' [token_form]]"
  have s: "server (login_env token_form) (requests_of []) (GET (login_url admin)) = Inr ?r"
    by (simp add: login_env_def)
  have c: "\<not> (400 \<le> status_code ?r \<and> status_code ?r < 600)"
    by simp
  have p: "html_parser (login_env token_form) (resp_text ?r) = Inr ?soup"
    by (simp add: login_env_def)
  have f: "find ''form'' (AttrEq ''id'' ''login_form'') ?soup = Some token_form"
    by (simp add: dom_defs login_defs)
  have h: "hidden_pairs token_form = [(''set_session'', ''abc''), (''token'', ''xyz'')]"
    by (simp add: dom_defs login_defs)
  have p': "html_parser (login_env token_form) ''login'' = Inr ?soup"
    by (simp add: login_env_def)
  from login_payload [OF s c p f] obtain form_data where
    fd1: "fst (get_login_form_data admin (login_env token_form) []) = Inr form_data" and
    fd2: "form_data = [''pma_username'' \<mapsto> username admin, ''pma_password'' \<mapsto> password admin]
                   ++ map_of (rev (hidden_pairs token_form))" and
    fd3: "dom form_data = {''pma_username'', ''pma_password''} \<union> fst ` set (hidden_pairs token_form)" and
    fd4: "distinct (map fst (hidden_pairs token_form)) \<and>
         ''pma_username'' \<notin> fst ` set (hidden_pairs token_form) \<and>
         ''pma_password'' \<notin> fst ` set (hidden_pairs token_form) \<longrightarrow>
         Map.graph form_data =
          {(''pma_username'', username admin), (''pma_password'', password admin)}
            \<union> set (hidden_pairs token_form)"
    by (elim exE conjE)
  from fd2 have v1: "form_data ''pma_username'' = Some ''root''"
    by (simp add: h admin_def init_def)
  from fd2 have v2: "form_data ''pma_password'' = Some ''secret''"
    by (simp add: h admin_def init_def)
  from fd2 have v3: "form_data ''set_session'' = Some ''abc''"
    by (simp add: h)
  from fd2 have v4: "form_data ''token'' = Some ''xyz''"
    by (simp add: h)
  from fd3 have d: "dom form_data = {''set_session'', ''token'', ''pma_username'', ''pma_password''}"
    by (simp add: h)
  from fd4 have g: "Map.graph form_data =
        {(''set_session'', ''abc''), (''token'', ''xyz''),
         (''pma_username'', ''root''), (''pma_password'', ''secret'')}"
    by (simp add: h admin_def init_def)
  show ?thesis
    by (intro conjI exI [of _ form_data]) (rule s p' f h fd1 v1 v2 v3 v4 d g)+
qed

text \<open>
  The claim as stated fails for a form with two hidden inputs of the same name: neither
  reuses a credential key, and the first one's value is replaced by the second's.
\<close>

theorem login_payload_duplicate_counterexample:
  "find ''form'' (AttrEq ''id'' ''login_form'') (el ''[document]'' [el ''body'' [twice_form]]) =
     Some twice_form \<and>
   hidden_pairs twice_form = [(''token'', ''a''), (''token'', ''b'')] \<and>
   ''token'' \<noteq> ''pma_username'' \<and> ''token'' \<noteq> ''pma_password'' \<and>
   fst (get_login_form_data admin (login_env twice_form) []) =
     Inr [''pma_username'' \<mapsto> ''root'', ''pma_password'' \<mapsto> ''secret'', ''token'' \<mapsto> ''b''] \<and>
   [''pma_username'' \<mapsto> ''root'', ''pma_password'' \<mapsto> ''secret'', ''token'' \<mapsto> ''b''] ''token''
     \<noteq> Some ''a''"
proof -
  have f: "find ''form'' (AttrEq ''id'' ''login_form'') (el ''[document]'' [el ''body'' [twice_form]]) =
     Some twice_form"
    by (simp add: dom_defs login_defs)
  have h: "hidden_pairs twice_form = [(''token'', ''a''), (''token'', ''b'')]"
    by (simp add: dom_defs login_defs)
  have g: "get_login_form_data admin (login_env twice_form) [] =
     (Inr ([''pma_username'' \<mapsto> username admin, ''pma_password'' \<mapsto> password admin]
            ++ map_of (rev (hidden_pairs twice_form))),
      [] @ [Log INFO FetchingLoginPage, Request (GET (login_url admin))])"
    by (rule get_login_form_data_ok [where response = "\<lparr>status_code = 200, resp_text = ''login''\<rparr>"
          and soup = "el ''[document]'' [el ''body'' [twice_form]]"])
       (simp_all add: login_env_def f)
  have g': "fst (get_login_form_data admin (login_env twice_form) []) =
     Inr [''pma_username'' \<mapsto> ''root'', ''pma_password'' \<mapsto> ''secret'', ''token'' \<mapsto> ''b'']"
    unfolding g by (simp add: h admin_def init_def)
  have d: "''token'' \<noteq> ''pma_username''" "''token'' \<noteq> ''pma_password''"
    by simp_all
  have n: "[''pma_username'' \<mapsto> ''root'', ''pma_password'' \<mapsto> ''secret'', ''token'' \<mapsto> ''b''] ''token''
     \<noteq> Some ''a''"
    by simp
  show ?thesis
    by (intro conjI) (rule f h d g' n)+
qed

subsection \<open>Steps only append to the trace\<close>

lemma emitsD: "emits Q m \<Longrightarrow> \<exists>es. snd (m w) = w @ es \<and> list_all Q es"
  by (simp add: emits_def)

lemma emits_weaken: "emits Q m \<Longrightarrow> (\<And>e. Q e \<Longrightarrow> Q' e) \<Longrightarrow> emits Q' m"
  unfolding emits_def list_all_iff by blast

lemma emits_return: "emits Q (return x)"
  by (simp add: emits_def return_def)

lemma emits_raise: "emits Q (raise e)"
  by (simp add: emits_def raise_def)

lemma emits_lift: "emits Q (lift r)"
  by (simp add: emits_def lift_def split: sum.splits)

lemma emits_logger_debug: "emits Q logger_debug"
  by (simp add: logger_debug_def emits_return)

lemma emits_logger: "Q (Log lv m) \<Longrightarrow> emits Q (logger lv m)"
  by (simp add: emits_def logger_def)

lemma emits_print: "Q (Print ln) \<Longrightarrow> emits Q (py_print ev ln)"
  by (simp add: emits_def py_print_def split: option.splits)

lemma emits_send: "Q (Request rq) \<Longrightarrow> emits Q (session_send ev rq)"
  by (simp add: emits_def session_send_def)

lemma emits_bind:
  assumes "emits Q m" and "\<And>x. emits Q (f x)"
  shows "emits Q (bind m f)"
  unfolding emits_def
proof
  fix w
  from assms(1) obtain es where m: "snd (m w) = w @ es" "list_all Q es"
    by (auto dest: emitsD)
  show "\<exists>es. snd (bind m f w) = w @ es \<and> list_all Q es"
  proof (cases "m w")
    case (Pair r w')
    with m have w': "w' = w @ es" by simp
    show ?thesis
    proof (cases r)
      case (Inl e)
      with Pair w' m show ?thesis by (simp add: bind_def)
    next
      case (Inr x)
      from assms(2) [of x] obtain fs where f: "snd (f x w') = w' @ fs" "list_all Q fs"
        by (auto dest: emitsD)
      with Pair Inr w' m show ?thesis by (simp add: bind_def)
    qed
  qed
qed

lemma emits_seq: "emits Q m \<Longrightarrow> emits Q k \<Longrightarrow> emits Q (seq m k)"
  by (simp add: seq_def emits_bind)

lemma emits_try_except:
  assumes "emits Q m" and "\<And>e. emits Q (h e)"
  shows "emits Q (try_except m c h)"
  unfolding emits_def
proof
  fix w
  from assms(1) obtain es where m: "snd (m w) = w @ es" "list_all Q es"
    by (auto dest: emitsD)
  show "\<exists>es. snd (try_except m c h w) = w @ es \<and> list_all Q es"
  proof (cases "m w")
    case (Pair r w')
    with m have w': "w' = w @ es" by simp
    show ?thesis
    proof (cases r)
      case (Inr x)
      with Pair w' m show ?thesis by (simp add: try_except_def)
    next
      case (Inl t)
      show ?thesis
      proof (cases t)
        case KeyboardInterrupt
        with Pair Inl w' m show ?thesis by (simp add: try_except_def)
      next
        case (Exception e)
        from assms(2) [of e] obtain fs where f: "snd (h e w') = w' @ fs" "list_all Q fs"
          by (auto dest: emitsD)
        with Pair Inl Exception w' m show ?thesis by (simp add: try_except_def)
      qed
    qed
  qed
qed

lemma emits_try_except2:
  assumes "emits Q m" and "\<And>e. emits Q (h1 e)" and "\<And>e. emits Q (h2 e)"
  shows "emits Q (try_except2 m c1 h1 c2 h2)"
  unfolding emits_def
proof
  fix w
  from assms(1) obtain es where m: "snd (m w) = w @ es" "list_all Q es"
    by (auto dest: emitsD)
  show "\<exists>es. snd (try_except2 m c1 h1 c2 h2 w) = w @ es \<and> list_all Q es"
  proof (cases "m w")
    case (Pair r w')
    with m have w': "w' = w @ es" by simp
    show ?thesis
    proof (cases r)
      case (Inr x)
      with Pair w' m show ?thesis by (simp add: try_except2_def)
    next
      case (Inl t)
      show ?thesis
      proof (cases t)
        case KeyboardInterrupt
        with Pair Inl w' m show ?thesis by (simp add: try_except2_def)
      next
        case (Exception e)
        from assms(2) [of e] obtain fs where f: "snd (h1 e w') = w' @ fs" "list_all Q fs"
          by (auto dest: emitsD)
        from assms(3) [of e] obtain gs where g: "snd (h2 e w') = w' @ gs" "list_all Q gs"
          by (auto dest: emitsD)
        from f g Pair Inl Exception w' m show ?thesis by (simp add: try_except2_def)
      qed
    qed
  qed
qed

lemma emits_if: "emits Q a \<Longrightarrow> emits Q b \<Longrightarrow> emits Q (if c then a else b)"
  by simp

lemma emits_case_option:
  "emits Q a \<Longrightarrow> (\<And>y. emits Q (b y)) \<Longrightarrow> emits Q (case x of None \<Rightarrow> a | Some y \<Rightarrow> b y)"
  by (cases x) simp_all

lemma emits_raise_for_status: "emits Q (raise_for_status r)"
  by (simp add: raise_for_status_def emits_raise emits_return)

lemma emits_send_checked: "Q (Request rq) \<Longrightarrow> emits Q (send_checked ev rq)"
  by (simp add: send_checked_def emits_bind emits_seq emits_send emits_raise_for_status emits_return)

lemmas emits_intros = emits_return emits_raise emits_lift emits_logger_debug emits_logger
  emits_print emits_send_checked emits_bind emits_seq emits_try_except emits_try_except2
  emits_if emits_case_option

lemma emits_get_login_form_data: "emits quiet (get_login_form_data self ev)"
  unfolding get_login_form_data_def login_form_body_def
  by (intro emits_intros) (simp_all add: quiet_def)

lemma emits_check_auth_success: "emits quiet (check_auth_success r)"
  unfolding check_auth_success_def
  by (intro emits_intros) (simp_all add: quiet_def)

lemma emits_run_login: "emits quiet (run_login self ev)"
  unfolding run_login_def
  by (intro emits_intros emits_get_login_form_data emits_check_auth_success)
     (simp_all add: quiet_def)

lemma emits_parse_table_data: "emits quiet (parse_table_data ev html)"
  unfolding parse_table_data_def parse_table_body_def Let_def
  by (intro emits_intros) (simp_all add: quiet_def)

lemma emits_run_table: "emits quiet (run_table self ev)"
  unfolding run_table_def
  by (intro emits_intros emits_parse_table_data) (simp_all add: quiet_def)

lemma emits_print_rows: "emits (\<lambda>e. e \<noteq> Close) (print_rows ev rows)"
  by (induction rows) (simp_all add: emits_intros)

lemma emits_print_results: "emits (\<lambda>e. e \<noteq> Close) (print_results ev hs rs)"
  unfolding print_results_def
  by (intro emits_intros emits_print_rows) simp_all

lemma quiet_not_close: "quiet e \<Longrightarrow> e \<noteq> Close"
  by (simp add: quiet_def)

lemma emits_present: "emits (\<lambda>e. e \<noteq> Close) (present ev parsed)"
  unfolding present_def
  by (cases parsed) (auto intro!: emits_intros emits_print_results split: option.splits)

lemma emits_run_body: "emits (\<lambda>e. e \<noteq> Close) (run_body self ev)"
  unfolding run_body_def
  by (intro emits_intros emits_present emits_weaken [OF emits_run_login]
      emits_weaken [OF emits_run_table] quiet_not_close)

lemma close_session_closing: "close_session ev w = (Inr (), w @ closing ev)"
  by (simp add: close_session_def closing_def session_close_def prog_defs split: option.splits)

subsection \<open>The run\<close>

lemmas run_defs = run_def run_body_def run_login_def run_table_def present_def
  close_session_def session_close_def get_login_form_data_def login_form_body_def
  send_checked_def session_send_def raise_for_status_def check_auth_success_def
  parse_table_data_def parse_table_body_def print_results_def separator_width_def
  py_repeat_def table_url_def

lemmas site_defs = site_def page_def shop_def login_page_def

lemma run_of_body_raise:
  "run_body self ev w = (Inl (Exception e), w') \<Longrightarrow>
   run self ev w = (Inr (), w' @ [Log CRITICAL (MainCritical e)] @ closing ev)"
  by (simp add: run_def try_finally_def try_except_def any_exception_def logger_def
      close_session_closing)

text \<open>
  The interrupt passes the handler of \<open>run\<close>: nothing is logged for it, the \<open>finally\<close>
  block closes the session, and the interrupt leaves \<open>run\<close>.
\<close>

lemma run_of_body_interrupt:
  "run_body self ev w = (Inl KeyboardInterrupt, w') \<Longrightarrow>
   run self ev w = (Inl KeyboardInterrupt, w' @ closing ev)"
  by (simp add: run_def try_finally_def try_except_def close_session_closing)

lemma run_of_body_Inl_trace:
  assumes "run_body self ev w = (Inl t, w')"
  shows "\<exists>xs. snd (run self ev w) = w' @ xs @ closing ev \<and> list_all quiet xs"
proof (cases t)
  case KeyboardInterrupt
  with assms have "snd (run self ev w) = w' @ [] @ closing ev"
    by (simp add: run_of_body_interrupt)
  then show ?thesis by (intro exI [of _ "[]"]) simp
next
  case (Exception e)
  with assms have "snd (run self ev w) = w' @ [Log CRITICAL (MainCritical e)] @ closing ev"
    by (simp add: run_of_body_raise)
  then show ?thesis by (intro exI [of _ "[Log CRITICAL (MainCritical e)]"]) (simp add: quiet_def)
qed

lemma run_of_body_return:
  "run_body self ev w = (Inr (), w') \<Longrightarrow> run self ev w = (Inr (), w' @ closing ev)"
  by (simp add: run_def try_finally_def try_except_def close_session_closing)

lemma run_body_login_raise:
  "run_login self ev w = (Inl e, w1) \<Longrightarrow> run_body self ev w = (Inl e, w1)"
  by (simp add: run_body_def bind_def)

lemma run_body_login_False:
  "run_login self ev w = (Inr False, w1) \<Longrightarrow> run_body self ev w = (Inr (), w1)"
  by (simp add: run_body_def bind_def return_def)

lemma run_body_table_raise:
  "run_login self ev w = (Inr True, w1) \<Longrightarrow> run_table self ev w1 = (Inl e, w2) \<Longrightarrow>
   run_body self ev w = (Inl e, w2)"
  by (simp add: run_body_def bind_def)

lemma run_body_table_None:
  "run_login self ev w = (Inr True, w1) \<Longrightarrow> run_table self ev w1 = (Inr None, w2) \<Longrightarrow>
   run_body self ev w = (Inr (), w2)"
  by (simp add: run_body_def bind_def return_def)

lemma run_body_table_Some:
  "run_login self ev w = (Inr True, w1) \<Longrightarrow>
   run_table self ev w1 = (Inr (Some parsed), w2) \<Longrightarrow>
   run_body self ev w = present ev parsed w2"
  by (simp add: run_body_def bind_def)

lemma present_falsy:
  "\<not> (truthy headers \<and> truthy rows) \<Longrightarrow> present ev (headers, rows) w = (Inr (), w)"
  by (auto simp: present_def return_def)

lemma present_truthy:
  "hs \<noteq> [] \<Longrightarrow> rs \<noteq> [] \<Longrightarrow> present ev (Some hs, Some rs) w = print_results ev hs rs w"
  by (simp add: present_def)

lemma truthy_Some: "truthy x \<Longrightarrow> \<exists>xs. x = Some xs \<and> xs \<noteq> []"
  by (cases x) simp_all

lemma quiet_closing: "list_all quiet es \<Longrightarrow> \<not> list_ex presenter_event es"
  by (auto simp: list_all_iff list_ex_iff quiet_def)

lemma closing_no_presenter: "\<not> list_ex presenter_event (closing ev)"
  by (simp add: closing_def split: option.splits)

text \<open>
  C7. On every execution of \<open>run\<close> the trace is the trace before it, then events none
  of which is the close of the session, then the close and the one record of how it went:
  \<open>session.close()\<close> is called exactly once, as the last act of the run. This holds when
  the run completes or returns early (after a caught failure or not), where it returns
  \<open>None\<close>, and when an exception that no handler catches leaves a step, the interrupt,
  where \<open>run\<close> raises it after the close; \<open>run\<close> raises exactly when its body does.
\<close>

theorem run_closes_once:
  "(\<exists>es. snd (run self ev w) = w @ es @ closing ev \<and> Close \<notin> set es) \<and>
   count_list (closing ev) Close = 1 \<and>
   count_list (snd (run self ev w)) Close = count_list w Close + 1 \<and>
   (fst (run self ev w) = Inr () \<or> fst (run self ev w) = Inl KeyboardInterrupt) \<and>
   (fst (run self ev w) = Inl KeyboardInterrupt) =
     (fst (run_body self ev w) = Inl KeyboardInterrupt)"
proof -
  from emits_run_body [of self ev] obtain es where
    es: "snd (run_body self ev w) = w @ es" "list_all (\<lambda>e. e \<noteq> Close) es"
    by (auto dest: emitsD)
  from es(2) have n: "Close \<notin> set es" by (auto simp: list_all_iff)
  have c: "count_list (closing ev) Close = 1"
    by (simp add: closing_def split: option.splits)
  obtain r w' where b: "run_body self ev w = (r, w')" by (cases "run_body self ev w")
  with es have w': "w' = w @ es" by simp
  have "\<exists>fs. snd (run self ev w) = w @ fs @ closing ev \<and> Close \<notin> set fs \<and>
          (fst (run self ev w) = Inr () \<or> fst (run self ev w) = Inl KeyboardInterrupt) \<and>
          (fst (run self ev w) = Inl KeyboardInterrupt) = (r = Inl KeyboardInterrupt)"
  proof (cases r)
    case (Inr u)
    with b have "run self ev w = (Inr (), w' @ closing ev)"
      by (simp add: run_of_body_return)
    with w' n Inr show ?thesis by auto
  next
    case (Inl t)
    show ?thesis
    proof (cases t)
      case KeyboardInterrupt
      with b Inl have "run self ev w = (Inl KeyboardInterrupt, w' @ closing ev)"
        by (simp add: run_of_body_interrupt)
      with w' n Inl KeyboardInterrupt show ?thesis by auto
    next
      case (Exception e)
      with b Inl have "run self ev w =
          (Inr (), w' @ [Log CRITICAL (MainCritical e)] @ closing ev)"
        by (simp add: run_of_body_raise)
      with w' have "run self ev w =
          (Inr (), w @ (es @ [Log CRITICAL (MainCritical e)]) @ closing ev)"
        by simp
      moreover from n have "Close \<notin> set (es @ [Log CRITICAL (MainCritical e)])" by simp
      ultimately have "snd (run self ev w) = w @ (es @ [Log CRITICAL (MainCritical e)]) @ closing ev
          \<and> Close \<notin> set (es @ [Log CRITICAL (MainCritical e)]) \<and> fst (run self ev w) = Inr ()"
        by simp
      with Inl Exception show ?thesis by (intro exI [of _ "es @ [Log CRITICAL (MainCritical e)]"]) simp
    qed
  qed
  then obtain fs where fs: "snd (run self ev w) = w @ fs @ closing ev" "Close \<notin> set fs"
      "fst (run self ev w) = Inr () \<or> fst (run self ev w) = Inl KeyboardInterrupt"
      "(fst (run self ev w) = Inl KeyboardInterrupt) = (r = Inl KeyboardInterrupt)"
    by blast
  from fs(2) have "count_list fs Close = 0" by (simp add: count_list_0_iff)
  with fs(1) c have k: "count_list (snd (run self ev w)) Close = count_list w Close + 1"
    by simp
  from fs(4) b have i: "(fst (run self ev w) = Inl KeyboardInterrupt) =
     (fst (run_body self ev w) = Inl KeyboardInterrupt)"
    by simp
  from fs(1,2) have "\<exists>es. snd (run self ev w) = w @ es @ closing ev \<and> Close \<notin> set es"
    by blast
  with c k fs(3) i show ?thesis by blast
qed

text \<open>
  C6. If a run leaves any event of the presenter, then its login step succeeded and its
  table step parsed a header list and a row list that are both non-empty. And whenever
  the parsed pair is not truthy on both sides (headers with zero rows, an empty header
  list with rows, a \<open>None\<close>) the run ends right after the parse with the closing events and
  leaves no event of the presenter.
\<close>

theorem presenter_only_when_truthy:
  "(\<forall>es. snd (run self ev w) = w @ es \<longrightarrow> list_ex presenter_event es \<longrightarrow>
      (\<exists>w1 hs rs w2. run_login self ev w = (Inr True, w1) \<and>
         run_table self ev w1 = (Inr (Some (Some hs, Some rs)), w2) \<and>
         hs \<noteq> [] \<and> rs \<noteq> [])) \<and>
   (\<forall>w1 headers rows w2. run_login self ev w = (Inr True, w1) \<longrightarrow>
      run_table self ev w1 = (Inr (Some (headers, rows)), w2) \<longrightarrow>
      \<not> (truthy headers \<and> truthy rows) \<longrightarrow>
      run self ev w = (Inr (), w2 @ closing ev) \<and>
      \<not> list_ex presenter_event (drop (length w) (snd (run self ev w))))"
proof (intro conjI allI impI)
  fix w1 headers rows w2
  assume l: "run_login self ev w = (Inr True, w1)"
    and t: "run_table self ev w1 = (Inr (Some (headers, rows)), w2)"
    and f: "\<not> (truthy headers \<and> truthy rows)"
  from l obtain e1 where e1: "w1 = w @ e1" "list_all quiet e1"
    using emitsD [OF emits_run_login, of self ev w] by auto
  from t obtain e2 where e2: "w2 = w1 @ e2" "list_all quiet e2"
    using emitsD [OF emits_run_table, of self ev w1] by auto
  from l t f have "run_body self ev w = (Inr (), w2)"
    by (simp add: run_body_table_Some present_falsy)
  then show r: "run self ev w = (Inr (), w2 @ closing ev)"
    by (rule run_of_body_return)
  from e1 e2 have "\<not> list_ex presenter_event (e1 @ e2 @ closing ev)"
    using closing_no_presenter [of ev] by (auto simp: list_all_iff list_ex_iff quiet_def)
  with r e1 e2 show "\<not> list_ex presenter_event (drop (length w) (snd (run self ev w)))"
    by simp
next
  fix es
  assume tr: "snd (run self ev w) = w @ es" and pe: "list_ex presenter_event es"
  obtain r1 w1 where l: "run_login self ev w = (r1, w1)" by (cases "run_login self ev w")
  then obtain e1 where e1: "w1 = w @ e1" "list_all quiet e1"
    using emitsD [OF emits_run_login, of self ev w] by auto
  have np: "\<not> list_ex presenter_event (e1 @ xs @ closing ev)"
    if "list_all quiet xs" for xs
    using that e1 closing_no_presenter [of ev]
    by (auto simp: list_all_iff list_ex_iff quiet_def)
  show "\<exists>w1 hs rs w2. run_login self ev w = (Inr True, w1) \<and>
         run_table self ev w1 = (Inr (Some (Some hs, Some rs)), w2) \<and>
         hs \<noteq> [] \<and> rs \<noteq> []"
  proof (cases r1)
    case (Inl t)
    with l have "run_body self ev w = (Inl t, w1)"
      by (simp add: run_body_login_raise)
    from run_of_body_Inl_trace [OF this] obtain xs where
      xs: "snd (run self ev w) = w1 @ xs @ closing ev" "list_all quiet xs"
      by blast
    with tr e1 have "es = e1 @ xs @ closing ev" by simp
    with np [OF xs(2)] pe show ?thesis by simp
  next
    case (Inr authenticated)
    show ?thesis
    proof (cases authenticated)
      case False
      with Inr l have "run self ev w = (Inr (), w1 @ closing ev)"
        by (simp add: run_body_login_False run_of_body_return)
      with tr e1 have "es = e1 @ [] @ closing ev" by simp
      with np [of "[]"] pe show ?thesis by simp
    next
      case True
      with Inr l have l': "run_login self ev w = (Inr True, w1)" by simp
      obtain r2 w2 where t: "run_table self ev w1 = (r2, w2)" by (cases "run_table self ev w1")
      then obtain e2 where e2: "w2 = w1 @ e2" "list_all quiet e2"
        using emitsD [OF emits_run_table, of self ev w1] by auto
      show ?thesis
      proof (cases r2)
        case (Inl t)
        with l' t have "run_body self ev w = (Inl t, w2)"
          by (simp add: run_body_table_raise)
        from run_of_body_Inl_trace [OF this] obtain xs where
          xs: "snd (run self ev w) = w2 @ xs @ closing ev" "list_all quiet xs"
          by blast
        with tr e1 e2 have "es = e1 @ (e2 @ xs) @ closing ev" by simp
        moreover from e2(2) xs(2) have "list_all quiet (e2 @ xs)" by simp
        ultimately show ?thesis using np [of "e2 @ xs"] pe by simp
      next
        case (Inr fetched)
        show ?thesis
        proof (cases fetched)
          case None
          with Inr l' t have "run self ev w = (Inr (), w2 @ closing ev)"
            by (simp add: run_body_table_None run_of_body_return)
          with tr e1 e2 have "es = e1 @ e2 @ closing ev" by simp
          with np [OF e2(2)] pe show ?thesis by simp
        next
          case (Some parsed)
          obtain headers rows where p: "parsed = (headers, rows)" by (cases parsed)
          show ?thesis
          proof (cases "truthy headers \<and> truthy rows")
            case True
            with truthy_Some [of headers] truthy_Some [of rows]
            obtain hs rs where "headers = Some hs" "hs \<noteq> []" "rows = Some rs" "rs \<noteq> []"
              by blast
            with l' t Inr Some p show ?thesis by simp
          next
            case False
            with Inr Some p l' t have "run self ev w = (Inr (), w2 @ closing ev)"
              by (simp add: run_body_table_Some present_falsy run_of_body_return)
            with tr e1 e2 have "es = e1 @ e2 @ closing ev" by simp
            with np [OF e2(2)] pe show ?thesis by simp
          qed
        qed
      qed
    qed
  qed
qed

lemma run_login_form_raise:
  "get_login_form_data self ev w = (Inl e, w1) \<Longrightarrow> run_login self ev w = (Inl e, w1)"
  by (simp add: run_login_def bind_def)

lemma run_login_post_fails:
  "get_login_form_data self ev w = (Inr fd, w1) \<Longrightarrow>
   send_checked ev (POST (login_url self) fd) (w1 @ [Log INFO SendingCredentials]) =
     (Inl (Exception e), w2) \<Longrightarrow>
   is_request_exception e \<Longrightarrow>
   run_login self ev w = (Inr False, w2 @ [Log ERROR (AuthRequestError e)])"
  by (simp add: run_login_def prog_defs)

lemma run_table_get_fails:
  "send_checked ev (GET (table_url self)) (w1 @ [Log INFO (FetchingTable (table_name self))]) =
     (Inl (Exception e), w2) \<Longrightarrow>
   is_request_exception e \<Longrightarrow>
   run_table self ev w1 = (Inr None, w2 @ [Log ERROR (TableRequestError e)])"
  by (simp add: run_table_def prog_defs)

lemma run_table_parse_fails:
  "send_checked ev (GET (table_url self)) (w1 @ [Log INFO (FetchingTable (table_name self))]) =
     (Inr response, w2) \<Longrightarrow>
   parse_table_body ev (resp_text response) w2 = (Inl (Exception e), w3) \<Longrightarrow>
   run_table self ev w1 = (Inr (Some (None, None)), w3 @ [Log ERROR (ParseError e)])"
  by (simp add: run_table_def prog_defs parse_table_data_of_body)

text \<open>
  C8. An exception raised in the body of \<open>_get_login_form_data\<close> is logged there and
  raised again, and the run then logs it at CRITICAL in its top-level handler and ends
  with the closing events. A request exception of the login POST, a request exception of
  the table GET, and any exception in the body of \<open>_parse_table_data\<close> are each logged
  at ERROR where they occur; the run then returns early: nothing follows but the closing
  events, nothing is raised, and no CRITICAL record is written.
\<close>

theorem failure_propagation:
  "(\<forall>e w0. login_form_body self ev w = (Inl (Exception e), w0) \<longrightarrow>
      get_login_form_data self ev w =
        (Inl (Exception e), w0 @ [Log ERROR (if is_request_exception e then FormRequestError e
                                 else FormUnexpectedError e)])) \<and>
   (\<forall>e w1. get_login_form_data self ev w = (Inl (Exception e), w1) \<longrightarrow>
      run self ev w = (Inr (), w1 @ [Log CRITICAL (MainCritical e)] @ closing ev)) \<and>
   (\<forall>fd w1 e w2. get_login_form_data self ev w = (Inr fd, w1) \<longrightarrow>
      send_checked ev (POST (login_url self) fd) (w1 @ [Log INFO SendingCredentials]) =
        (Inl (Exception e), w2) \<longrightarrow>
      is_request_exception e \<longrightarrow>
      run self ev w = (Inr (), w2 @ [Log ERROR (AuthRequestError e)] @ closing ev)) \<and>
   (\<forall>w1 e w2. run_login self ev w = (Inr True, w1) \<longrightarrow>
      send_checked ev (GET (table_url self)) (w1 @ [Log INFO (FetchingTable (table_name self))]) =
        (Inl (Exception e), w2) \<longrightarrow>
      is_request_exception e \<longrightarrow>
      run self ev w = (Inr (), w2 @ [Log ERROR (TableRequestError e)] @ closing ev)) \<and>
   (\<forall>w1 response w2 e w3. run_login self ev w = (Inr True, w1) \<longrightarrow>
      send_checked ev (GET (table_url self)) (w1 @ [Log INFO (FetchingTable (table_name self))]) =
        (Inr response, w2) \<longrightarrow>
      parse_table_body ev (resp_text response) w2 = (Inl (Exception e), w3) \<longrightarrow>
      run self ev w = (Inr (), w3 @ [Log ERROR (ParseError e)] @ closing ev))"
proof (intro conjI allI impI)
  fix e w0
  assume "login_form_body self ev w = (Inl (Exception e), w0)"
  then show "get_login_form_data self ev w =
        (Inl (Exception e), w0 @ [Log ERROR (if is_request_exception e then FormRequestError e
                                 else FormUnexpectedError e)])"
    by (simp add: get_login_form_data_def prog_defs)
next
  fix e w1
  assume "get_login_form_data self ev w = (Inl (Exception e), w1)"
  then have "run_body self ev w = (Inl (Exception e), w1)"
    by (simp add: run_login_form_raise run_body_login_raise)
  then show "run self ev w = (Inr (), w1 @ [Log CRITICAL (MainCritical e)] @ closing ev)"
    by (rule run_of_body_raise)
next
  fix fd w1 e w2
  assume "get_login_form_data self ev w = (Inr fd, w1)"
    and "send_checked ev (POST (login_url self) fd) (w1 @ [Log INFO SendingCredentials]) = (Inl (Exception e), w2)"
    and "is_request_exception e"
  then have "run_login self ev w = (Inr False, w2 @ [Log ERROR (AuthRequestError e)])"
    by (rule run_login_post_fails)
  then have "run_body self ev w = (Inr (), w2 @ [Log ERROR (AuthRequestError e)])"
    by (rule run_body_login_False)
  then show "run self ev w = (Inr (), w2 @ [Log ERROR (AuthRequestError e)] @ closing ev)"
    by (simp add: run_of_body_return)
next
  fix w1 e w2
  assume l: "run_login self ev w = (Inr True, w1)"
    and "send_checked ev (GET (table_url self)) (w1 @ [Log INFO (FetchingTable (table_name self))]) =
        (Inl (Exception e), w2)"
    and "is_request_exception e"
  then have "run_table self ev w1 = (Inr None, w2 @ [Log ERROR (TableRequestError e)])"
    by (simp add: run_table_get_fails)
  with l have "run_body self ev w = (Inr (), w2 @ [Log ERROR (TableRequestError e)])"
    by (rule run_body_table_None)
  then show "run self ev w = (Inr (), w2 @ [Log ERROR (TableRequestError e)] @ closing ev)"
    by (simp add: run_of_body_return)
next
  fix w1 response w2 e w3
  assume l: "run_login self ev w = (Inr True, w1)"
    and "send_checked ev (GET (table_url self)) (w1 @ [Log INFO (FetchingTable (table_name self))]) =
        (Inr response, w2)"
    and "parse_table_body ev (resp_text response) w2 = (Inl (Exception e), w3)"
  then have "run_table self ev w1 = (Inr (Some (None, None)), w3 @ [Log ERROR (ParseError e)])"
    by (simp add: run_table_parse_fails)
  with l have "run_body self ev w = (Inr (), w3 @ [Log ERROR (ParseError e)])"
    by (simp add: run_body_table_Some present_falsy)
  then show "run self ev w = (Inr (), w3 @ [Log ERROR (ParseError e)] @ closing ev)"
    by (simp add: run_of_body_return)
qed

lemma seq_Inr:
  "seq m k w = (Inr y, w') \<Longrightarrow> \<exists>w1. m w = (Inr (), w1) \<and> k w1 = (Inr y, w')"
  by (auto simp: seq_def bind_def split: prod.splits sum.splits)

lemma py_print_extends: "py_print ev ln w = (r, w') \<Longrightarrow> \<exists>es. w' = w @ es"
  by (auto simp: py_print_def split: option.splits)

lemma print_rows_extends: "print_rows ev rs w = (r, w') \<Longrightarrow> \<exists>es. w' = w @ es"
  using emitsD [OF emits_print_rows, of ev rs w] by auto

text \<open>The console raises exceptions only: no interrupt leaves the presenter's prints.\<close>

lemma calm_py_print: "calm (py_print ev ln)"
  by (simp add: calm_def py_print_def split: option.splits)

lemma calm_logger: "calm (logger lv m)"
  by (simp add: calm_def logger_def)

lemma calm_return: "calm (return x)"
  by (simp add: calm_def return_def)

lemma calm_seq:
  assumes "calm m" and "calm k"
  shows "calm (seq m k)"
  unfolding calm_def
proof
  fix w
  obtain r w' where mw: "m w = (r, w')" by (cases "m w")
  show "fst (seq m k w) \<noteq> Inl KeyboardInterrupt"
  proof (cases r)
    case (Inl t)
    with mw assms(1) have "t \<noteq> KeyboardInterrupt"
      by (auto simp: calm_def dest: spec [of _ w])
    with mw Inl show ?thesis by (simp add: seq_def bind_def)
  next
    case (Inr u)
    with mw assms(2) show ?thesis
      by (simp add: seq_def bind_def calm_def)
  qed
qed

lemma calm_print_rows: "calm (print_rows ev rows)"
  by (induction rows) (simp_all add: calm_return calm_seq calm_py_print)

lemma print_results_leaves_event:
  "\<exists>es. snd (print_results ev hs rs w) = w @ es \<and> list_ex presenter_event es"
proof -
  let ?body = "seq (py_print ev Banner)
       (seq (py_print ev (Line (join '' | '' hs)))
       (seq (py_print ev (Line (py_repeat CHR ''-'' (separator_width hs))))
       (seq (print_rows ev rs)
            (logger INFO ResultsPrinted))))"
  have b: "emits (\<lambda>e. True) ?body"
    by (intro emits_intros emits_weaken [OF emits_print_rows]) simp_all
  obtain r w' where rw: "?body w = (r, w')" by (cases "?body w")
  with emitsD [OF b, of w] obtain es where es: "w' = w @ es" by auto
  show ?thesis
  proof (cases r)
    case (Inl t)
    have "calm ?body"
      by (intro calm_seq calm_py_print calm_print_rows calm_logger)
    with rw Inl have "t \<noteq> KeyboardInterrupt"
      by (auto simp: calm_def dest: spec [of _ w])
    then obtain e where e: "t = Exception e" by (cases t) simp_all
    with Inl rw es have "snd (print_results ev hs rs w) = w @ es @ [Log ERROR (PrintError e)]"
      by (simp add: print_results_def try_except_def any_exception_def seq_def bind_def
          logger_def raise_def)
    then show ?thesis by (intro exI [of _ "es @ [Log ERROR (PrintError e)]"]) simp
  next
    case (Inr u)
    with rw obtain w1 w2 w3 w4 where
      st: "py_print ev Banner w = (Inr (), w1)"
          "py_print ev (Line (join '' | '' hs)) w1 = (Inr (), w2)"
          "py_print ev (Line (py_repeat CHR ''-'' (separator_width hs))) w2 = (Inr (), w3)"
          "print_rows ev rs w3 = (Inr (), w4)"
          "logger INFO ResultsPrinted w4 = (Inr u, w')"
      by (auto dest!: seq_Inr)
    from st(1,2,3) obtain a where "w3 = w @ a"
      by (auto dest!: py_print_extends)
    with st(4) obtain c where "w4 = w @ c"
      by (auto dest!: print_rows_extends)
    moreover from st(5) have "w' = w4 @ [Log INFO ResultsPrinted]" by (simp add: logger_def)
    ultimately have "es = c @ [Log INFO ResultsPrinted]" using es by simp
    then have "list_ex presenter_event es" by simp
    moreover from Inr rw es have "snd (print_results ev hs rs w) = w @ es"
      by (simp add: print_results_def try_except_def)
    ultimately show ?thesis by blast
  qed
qed

subsection \<open>Runs on the sample sites\<close>

lemmas scenario_defs = nav_page_def shop_empty_def refused_site_def forbidden_site_def
  timeout_site_def no_tbody_site_def interrupted_site_def

lemmas trace_defs = sample_payload_def form_trace_def login_trace_def table_trace_def

lemmas eval_defs = run_defs prog_defs site_defs scenario_defs login_defs sample_defs dom_defs trace_defs
  add_hidden_def closing_def no_tbody_page_def

text \<open>
  An interrupt during the login POST: no handler catches it, the session is closed once,
  and the interrupt leaves \<open>run\<close>.
\<close>

theorem run_closes_once_witness:
  "fst (run_body admin interrupted_site []) = Inl KeyboardInterrupt \<and>
   run admin interrupted_site [] =
     (Inl KeyboardInterrupt,
      form_trace @
      [Log INFO SendingCredentials,
       Request (POST ''http://pma/index.php?route=/'' sample_payload),
       Close, Log INFO SessionClosed]) \<and>
   count_list (snd (run admin interrupted_site [])) Close = count_list [] Close + 1 \<and>
   fst (run admin interrupted_site []) = Inl KeyboardInterrupt"
proof -
  note once = run_closes_once [of admin interrupted_site "[]"]
  have b: "fst (run_body admin interrupted_site []) = Inl KeyboardInterrupt"
    by (simp add: eval_defs)
  from once b have f: "fst (run admin interrupted_site []) = Inl KeyboardInterrupt"
    by simp
  from once have k: "count_list (snd (run admin interrupted_site [])) Close =
      count_list [] Close + 1"
    by (elim conjE)
  have r: "run admin interrupted_site [] =
     (Inl KeyboardInterrupt,
      form_trace @
      [Log INFO SendingCredentials,
       Request (POST ''http://pma/index.php?route=/'' sample_payload),
       Close, Log INFO SessionClosed])"
    by (simp add: eval_defs)
  show ?thesis
    by (intro conjI) (rule b r k f)+
qed

theorem presenter_only_when_truthy_witness:
  "snd (run admin shop []) =
     [] @ (table_trace @
           [Log INFO (RowsParsed 1), Print Banner, Print (Line ''ID | Name | Email | Created''),
            Print (Line (replicate 27 CHR ''-'')), Print (Line ''42 | Alice''),
            Log INFO ResultsPrinted, Close, Log INFO SessionClosed]) \<and>
   list_ex presenter_event
     (table_trace @
      [Log INFO (RowsParsed 1), Print Banner, Print (Line ''ID | Name | Email | Created''),
       Print (Line (replicate 27 CHR ''-'')), Print (Line ''42 | Alice''),
       Log INFO ResultsPrinted, Close, Log INFO SessionClosed]) \<and>
   (\<exists>w1 hs rs w2. run_login admin shop [] = (Inr True, w1) \<and>
      run_table admin shop w1 = (Inr (Some (Some hs, Some rs)), w2) \<and> hs \<noteq> [] \<and> rs \<noteq> []) \<and>
   run_login admin shop_empty [] = (Inr True, login_trace) \<and>
   run_table admin shop_empty login_trace =
     (Inr (Some (Some [''A''], Some [])), table_trace @ [Log INFO (RowsParsed 0)]) \<and>
   \<not> (truthy (Some [''A'']) \<and> truthy (Some ([] :: string list list))) \<and>
   run admin shop_empty [] =
     (Inr (), (table_trace @ [Log INFO (RowsParsed 0)]) @ closing shop_empty) \<and>
   \<not> list_ex presenter_event (drop (length ([] :: event list)) (snd (run admin shop_empty [])))"
proof -
  let ?es = "table_trace @
           [Log INFO (RowsParsed 1), Print Banner, Print (Line ''ID | Name | Email | Created''),
            Print (Line (replicate 27 CHR ''-'')), Print (Line ''42 | Alice''),
            Log INFO ResultsPrinted, Close, Log INFO SessionClosed]"
  have h1: "snd (run admin shop []) = [] @ ?es"
    by (simp add: eval_defs)
  have h2: "list_ex presenter_event ?es"
    by simp
  note main = presenter_only_when_truthy [of admin shop "[]", THEN conjunct1, rule_format]
  note c1 = main [OF h1 h2]
  have l: "run_login admin shop_empty [] = (Inr True, login_trace)"
    by (simp add: eval_defs)
  have t: "run_table admin shop_empty login_trace =
     (Inr (Some (Some [''A''], Some [])), table_trace @ [Log INFO (RowsParsed 0)])"
    by (simp add: eval_defs)
  have f: "\<not> (truthy (Some [''A'']) \<and> truthy (Some ([] :: string list list)))"
    by simp
  note side = presenter_only_when_truthy [of admin shop_empty "[]", THEN conjunct2, rule_format]
  note c2 = side [OF l t f]
  show ?thesis
    by (intro conjI) (rule h1 h2 c1 l t f c2 [THEN conjunct1] c2 [THEN conjunct2])+
qed

theorem failure_propagation_witness:
  "login_form_body admin refused_site [] = (Inl (Exception (RequestException ''refused'')), form_trace) \<and>
   get_login_form_data admin refused_site [] =
     (Inl (Exception (RequestException ''refused'')),
      form_trace @ [Log ERROR (FormRequestError (RequestException ''refused''))]) \<and>
   run admin refused_site [] =
     (Inr (), (form_trace @ [Log ERROR (FormRequestError (RequestException ''refused''))])
              @ [Log CRITICAL (MainCritical (RequestException ''refused''))]
              @ closing refused_site) \<and>
   get_login_form_data admin forbidden_site [] = (Inr sample_payload, form_trace) \<and>
   send_checked forbidden_site (POST (login_url admin) sample_payload)
       (form_trace @ [Log INFO SendingCredentials]) =
     (Inl (Exception (RequestException ''HTTPError'')),
      form_trace @ [Log INFO SendingCredentials, Request (POST (login_url admin) sample_payload)]) \<and>
   is_request_exception (RequestException ''HTTPError'') \<and>
   run admin forbidden_site [] =
     (Inr (), (form_trace @ [Log INFO SendingCredentials,
                             Request (POST (login_url admin) sample_payload)])
              @ [Log ERROR (AuthRequestError (RequestException ''HTTPError''))]
              @ closing forbidden_site) \<and>
   run_login admin timeout_site [] = (Inr True, login_trace) \<and>
   send_checked timeout_site (GET (table_url admin))
       (login_trace @ [Log INFO (FetchingTable (table_name admin))]) =
     (Inl (Exception (RequestException ''timeout'')), table_trace) \<and>
   is_request_exception (RequestException ''timeout'') \<and>
   run admin timeout_site [] =
     (Inr (), table_trace @ [Log ERROR (TableRequestError (RequestException ''timeout''))]
              @ closing timeout_site) \<and>
   run_login admin no_tbody_site [] = (Inr True, login_trace) \<and>
   send_checked no_tbody_site (GET (table_url admin))
       (login_trace @ [Log INFO (FetchingTable (table_name admin))]) =
     (Inr \<lparr>status_code = 200, resp_text = ''table''\<rparr>, table_trace) \<and>
   parse_table_body no_tbody_site (resp_text \<lparr>status_code = 200, resp_text = ''table''\<rparr>)
       table_trace = (Inl (Exception AttributeError), table_trace) \<and>
   run admin no_tbody_site [] =
     (Inr (), table_trace @ [Log ERROR (ParseError AttributeError)] @ closing no_tbody_site)"
proof -
  note p1 = failure_propagation [of admin refused_site "[]", THEN conjunct1, rule_format]
  note p2 = failure_propagation [of admin refused_site "[]", THEN conjunct2, THEN conjunct1,
      rule_format]
  note p3 = failure_propagation [of admin forbidden_site "[]", THEN conjunct2, THEN conjunct2,
      THEN conjunct1, rule_format]
  note p4 = failure_propagation [of admin timeout_site "[]", THEN conjunct2, THEN conjunct2,
      THEN conjunct2, THEN conjunct1, rule_format]
  note p5 = failure_propagation [of admin no_tbody_site "[]", THEN conjunct2, THEN conjunct2,
      THEN conjunct2, THEN conjunct2, rule_format]
  have a1: "login_form_body admin refused_site [] = (Inl (Exception (RequestException ''refused'')), form_trace)"
    by (simp add: eval_defs)
  from p1 [OF a1] have a2: "get_login_form_data admin refused_site [] =
     (Inl (Exception (RequestException ''refused'')),
      form_trace @ [Log ERROR (FormRequestError (RequestException ''refused''))])"
    by simp
  note a3 = p2 [OF a2]
  have b1: "get_login_form_data admin forbidden_site [] = (Inr sample_payload, form_trace)"
    by (simp add: eval_defs)
  have b2: "send_checked forbidden_site (POST (login_url admin) sample_payload)
       (form_trace @ [Log INFO SendingCredentials]) =
     (Inl (Exception (RequestException ''HTTPError'')),
      form_trace @ [Log INFO SendingCredentials, Request (POST (login_url admin) sample_payload)])"
    by (simp add: eval_defs requests_of_append)
  have b3: "is_request_exception (RequestException ''HTTPError'')"
    by simp
  note b4 = p3 [OF b1 b2 b3]
  have c1: "run_login admin timeout_site [] = (Inr True, login_trace)"
    by (simp add: eval_defs)
  have c2: "send_checked timeout_site (GET (table_url admin))
       (login_trace @ [Log INFO (FetchingTable (table_name admin))]) =
     (Inl (Exception (RequestException ''timeout'')), table_trace)"
    by (simp add: eval_defs)
  have c3: "is_request_exception (RequestException ''timeout'')"
    by simp
  note c4 = p4 [OF c1 c2 c3]
  have d1: "run_login admin no_tbody_site [] = (Inr True, login_trace)"
    by (simp add: eval_defs)
  have d2: "send_checked no_tbody_site (GET (table_url admin))
       (login_trace @ [Log INFO (FetchingTable (table_name admin))]) =
     (Inr \<lparr>status_code = 200, resp_text = ''table''\<rparr>, table_trace)"
    by (simp add: eval_defs)
  have d3: "parse_table_body no_tbody_site (resp_text \<lparr>status_code = 200, resp_text = ''table''\<rparr>)
       table_trace = (Inl (Exception AttributeError), table_trace)"
    by (simp add: eval_defs)
  note d4 = p5 [OF d1 d2 d3]
  show ?thesis
    by (intro conjI) (rule a1 a2 a3 b1 b2 b3 b4 c1 c2 c3 c4 d1 d2 d3 d4)+
qed

text \<open>
  End to end on the sample site: the run prints the banner and the three lines of the
  table, and closes the session once.
\<close>

lemma shop_run_prints:
  "printed (snd (run admin shop [])) =
     [Banner, Line ''ID | Name | Email | Created'', Line (replicate 27 CHR ''-''),
      Line ''42 | Alice''] \<and>
   count_list (snd (run admin shop [])) Close = 1"
  by (simp add: eval_defs)

text \<open>
  Only request exceptions are caught at the POST: any other exception raised there
  reaches the top-level handler of the run.
\<close>

lemma run_login_post_other_exception:
  "get_login_form_data self ev w = (Inr fd, w1) \<Longrightarrow>
   send_checked ev (POST (login_url self) fd) (w1 @ [Log INFO SendingCredentials]) = (Inl (Exception e), w2) \<Longrightarrow>
   \<not> is_request_exception e \<Longrightarrow>
   run self ev w = (Inr (), w2 @ [Log CRITICAL (MainCritical e)] @ closing ev)"
proof -
  assume "get_login_form_data self ev w = (Inr fd, w1)"
    and "send_checked ev (POST (login_url self) fd) (w1 @ [Log INFO SendingCredentials]) = (Inl (Exception e), w2)"
    and "\<not> is_request_exception e"
  then have "run_login self ev w = (Inl (Exception e), w2)"
    by (simp add: run_login_def prog_defs)
  then have "run_body self ev w = (Inl (Exception e), w2)"
    by (rule run_body_login_raise)
  then show ?thesis by (rule run_of_body_raise)
qed

text \<open>
  The interrupt at each request of the run: it passes the local handlers unlogged, the
  session is closed, and the interrupt leaves \<open>run\<close>.
\<close>

lemma run_form_interrupt:
  assumes "login_form_body self ev w = (Inl KeyboardInterrupt, w0)"
  shows "run self ev w = (Inl KeyboardInterrupt, w0 @ closing ev)"
proof -
  from assms have "get_login_form_data self ev w = (Inl KeyboardInterrupt, w0)"
    by (simp add: get_login_form_data_def try_except2_def)
  then have "run_body self ev w = (Inl KeyboardInterrupt, w0)"
    by (simp add: run_login_form_raise run_body_login_raise)
  then show ?thesis by (rule run_of_body_interrupt)
qed

lemma run_post_interrupt:
  assumes "get_login_form_data self ev w = (Inr fd, w1)"
    and "send_checked ev (POST (login_url self) fd) (w1 @ [Log INFO SendingCredentials]) =
      (Inl KeyboardInterrupt, w2)"
  shows "run self ev w = (Inl KeyboardInterrupt, w2 @ closing ev)"
proof -
  from assms have "run_login self ev w = (Inl KeyboardInterrupt, w2)"
    by (simp add: run_login_def prog_defs)
  then have "run_body self ev w = (Inl KeyboardInterrupt, w2)"
    by (rule run_body_login_raise)
  then show ?thesis by (rule run_of_body_interrupt)
qed

lemma run_table_interrupt:
  assumes "run_login self ev w = (Inr True, w1)"
    and "send_checked ev (GET (table_url self)) (w1 @ [Log INFO (FetchingTable (table_name self))]) =
      (Inl KeyboardInterrupt, w2)"
  shows "run self ev w = (Inl KeyboardInterrupt, w2 @ closing ev)"
proof -
  from assms(2) have "run_table self ev w1 = (Inl KeyboardInterrupt, w2)"
    by (simp add: run_table_def prog_defs)
  with assms(1) have "run_body self ev w = (Inl KeyboardInterrupt, w2)"
    by (rule run_body_table_raise)
  then show ?thesis by (rule run_of_body_interrupt)
qed

end
